theory Spec2Isabelle
  imports Main
begin

section \<open>The type system the checker works on\<close>

text \<open>
  The checker in \<^verbatim>\<open>clang-plugin/gvariant-checker.cpp\<close> inspects Clang types through
  a handful of queries. A \<^verbatim>\<open>QualType\<close> is a type node together with its local
  qualifiers. The nodes that matter to the checker are builtin types, pointers, typedef
  sugar and named aggregates. \<^verbatim>\<open>dyn_cast\<close> looks at the node as written (a typedef
  of a pointer is not a \<^verbatim>\<open>PointerType\<close>), whereas \<^verbatim>\<open>isPointerType\<close>,
  \<^verbatim>\<open>hasSameType\<close> and the integer predicates look at the canonical type.
\<close>

datatype BuiltinKind =
    BT_Void | BT_Bool | BT_Char_U | BT_UChar | BT_UShort | BT_UInt | BT_ULong | BT_ULongLong
  | BT_Char_S | BT_SChar | BT_Short | BT_Int | BT_Long | BT_LongLong | BT_Float | BT_Double | BT_LongDouble

datatype Qualifiers = Qualifiers (hasConst: bool) (hasVolatile: bool) (hasRestrict: bool)

datatype QualType = QualType (getLocalQualifiers: Qualifiers) (getTypePtr: CType)
  and CType =
    BuiltinType BuiltinKind
  | PointerType QualType
  | TypedefType string QualType
  | RecordType string

definition no_quals :: Qualifiers where
  "no_quals = Qualifiers False False False"

definition const_quals :: Qualifiers where
  "const_quals = Qualifiers True False False"

fun addQualifiers :: "Qualifiers \<Rightarrow> Qualifiers \<Rightarrow> Qualifiers" where
  "addQualifiers (Qualifiers c1 v1 r1) (Qualifiers c2 v2 r2) =
     Qualifiers (c1 \<or> c2) (v1 \<or> v2) (r1 \<or> r2)"

fun withQualifiers :: "Qualifiers \<Rightarrow> QualType \<Rightarrow> QualType" where
  "withQualifiers q (QualType q' t) = QualType (addQualifiers q q') t"

text \<open>The canonical type: typedef sugar removed at every level, qualifiers merged.\<close>

fun getCanonicalType :: "QualType \<Rightarrow> QualType" where
  "getCanonicalType (QualType q (BuiltinType k)) = QualType q (BuiltinType k)"
| "getCanonicalType (QualType q (PointerType p)) = QualType q (PointerType (getCanonicalType p))"
| "getCanonicalType (QualType q (TypedefType n u)) = withQualifiers q (getCanonicalType u)"
| "getCanonicalType (QualType q (RecordType n)) = QualType q (RecordType n)"

definition hasSameType :: "QualType \<Rightarrow> QualType \<Rightarrow> bool" where
  "hasSameType t1 t2 = (getCanonicalType t1 = getCanonicalType t2)"

text \<open>\<^verbatim>\<open>dyn_cast<PointerType>\<close>, \<^verbatim>\<open>dyn_cast<TypedefType>\<close>, \<^verbatim>\<open>dyn_cast<BuiltinType>\<close>
  on a \<^verbatim>\<open>QualType\<close>: the node as written, local qualifiers ignored, no desugaring.\<close>

definition dyn_cast_PointerType :: "QualType \<Rightarrow> QualType option" where
  "dyn_cast_PointerType t = (case getTypePtr t of PointerType p \<Rightarrow> Some p | _ \<Rightarrow> None)"

definition dyn_cast_TypedefType :: "QualType \<Rightarrow> string option" where
  "dyn_cast_TypedefType t = (case getTypePtr t of TypedefType n _ \<Rightarrow> Some n | _ \<Rightarrow> None)"

definition dyn_cast_BuiltinType :: "QualType \<Rightarrow> BuiltinKind option" where
  "dyn_cast_BuiltinType t = (case getTypePtr t of BuiltinType k \<Rightarrow> Some k | _ \<Rightarrow> None)"

definition canonicalBuiltin :: "QualType \<Rightarrow> BuiltinKind option" where
  "canonicalBuiltin t = dyn_cast_BuiltinType (getCanonicalType t)"

definition isPointerType :: "QualType \<Rightarrow> bool" where
  "isPointerType t = (dyn_cast_PointerType (getCanonicalType t) \<noteq> None)"

definition isUnsignedIntegerType :: "QualType \<Rightarrow> bool" where
  "isUnsignedIntegerType t =
     (case canonicalBuiltin t of
        Some k \<Rightarrow> k \<in> {BT_Bool, BT_Char_U, BT_UChar, BT_UShort, BT_UInt, BT_ULong, BT_ULongLong}
      | None \<Rightarrow> False)"

definition isSignedIntegerType :: "QualType \<Rightarrow> bool" where
  "isSignedIntegerType t =
     (case canonicalBuiltin t of
        Some k \<Rightarrow> k \<in> {BT_Char_S, BT_SChar, BT_Short, BT_Int, BT_Long, BT_LongLong}
      | None \<Rightarrow> False)"

definition hasSignedIntegerRepresentation :: "QualType \<Rightarrow> bool" where
  "hasSignedIntegerRepresentation t = isSignedIntegerType t"

definition isCharType :: "QualType \<Rightarrow> bool" where
  "isCharType t =
     (case canonicalBuiltin t of
        Some k \<Rightarrow> k \<in> {BT_Char_U, BT_UChar, BT_Char_S, BT_SChar}
      | None \<Rightarrow> False)"

definition isPromotableIntegerType :: "QualType \<Rightarrow> bool" where
  "isPromotableIntegerType t =
     (case canonicalBuiltin t of
        Some k \<Rightarrow> k \<in> {BT_Bool, BT_Char_U, BT_UChar, BT_Char_S, BT_SChar, BT_Short, BT_UShort}
      | None \<Rightarrow> False)"

definition isConstQualified :: "QualType \<Rightarrow> bool" where
  "isConstQualified t = hasConst (getLocalQualifiers (getCanonicalType t))"

text \<open>
  \<^verbatim>\<open>QualType::getUnqualifiedType\<close> removes the qualifiers at the top level of a
  type, those behind typedef sugar included. When the canonical type of the node has no
  qualifier, the answer is the node without the local qualifiers. Otherwise
  \<^verbatim>\<open>getSplitUnqualifiedTypeImpl\<close> removes the sugar one step at a time and remembers
  the node under the last qualifier it met; the sugar below that node is kept. Here the
  function returns that node only, which is all \<^verbatim>\<open>getUnqualifiedType\<close> takes from
  its result.
\<close>

fun getSplitUnqualifiedTypeImpl :: "CType \<Rightarrow> CType \<Rightarrow> CType" where
  "getSplitUnqualifiedTypeImpl (TypedefType n (QualType quals ty)) lastTypeWithQuals =
     getSplitUnqualifiedTypeImpl ty (if quals \<noteq> no_quals then ty else lastTypeWithQuals)"
| "getSplitUnqualifiedTypeImpl (BuiltinType k) lastTypeWithQuals = lastTypeWithQuals"
| "getSplitUnqualifiedTypeImpl (PointerType p) lastTypeWithQuals = lastTypeWithQuals"
| "getSplitUnqualifiedTypeImpl (RecordType n) lastTypeWithQuals = lastTypeWithQuals"

definition hasLocalQualifiers :: "QualType \<Rightarrow> bool" where
  "hasLocalQualifiers t = (getLocalQualifiers t \<noteq> no_quals)"

definition getUnqualifiedType :: "QualType \<Rightarrow> QualType" where
  "getUnqualifiedType t =
     (if \<not> hasLocalQualifiers (getCanonicalType (QualType no_quals (getTypePtr t)))
      then QualType no_quals (getTypePtr t)
      else QualType no_quals (getSplitUnqualifiedTypeImpl (getTypePtr t) (getTypePtr t)))"

definition getConstType :: "QualType \<Rightarrow> QualType" where
  "getConstType t = withQualifiers const_quals t"

definition getPointerType :: "QualType \<Rightarrow> QualType" where
  "getPointerType t = QualType no_quals (PointerType t)"

text \<open>\<^verbatim>\<open>Type::getPointeeType\<close> looks through typedef sugar; it has no result on a
  type that is not a pointer.\<close>

fun getPointeeType :: "QualType \<Rightarrow> QualType option" where
  "getPointeeType (QualType q (PointerType p)) = Some p"
| "getPointeeType (QualType q (TypedefType n u)) = getPointeeType u"
| "getPointeeType (QualType q (BuiltinType k)) = None"
| "getPointeeType (QualType q (RecordType n)) = None"

text \<open>
  The builtin types of the \<^verbatim>\<open>ASTContext\<close>. The target is the LP64 one the source's
  comments describe (\<^verbatim>\<open>hasSameType (gint64, long)\<close> holds): \<^verbatim>\<open>char\<close> is signed and
  8 bits wide, \<^verbatim>\<open>short\<close> 16, \<^verbatim>\<open>int\<close> 32, \<^verbatim>\<open>long\<close> and \<^verbatim>\<open>long long\<close> 64.
\<close>

definition builtin :: "BuiltinKind \<Rightarrow> QualType" where
  "builtin k = QualType no_quals (BuiltinType k)"

abbreviation "IntTy \<equiv> builtin BT_Int"
abbreviation "CharTy \<equiv> builtin BT_Char_S"
abbreviation "UnsignedCharTy \<equiv> builtin BT_UChar"
abbreviation "UnsignedShortTy \<equiv> builtin BT_UShort"
abbreviation "UnsignedIntTy \<equiv> builtin BT_UInt"
abbreviation "LongTy \<equiv> builtin BT_Long"
abbreviation "UnsignedLongTy \<equiv> builtin BT_ULong"
abbreviation "UnsignedLongLongTy \<equiv> builtin BT_ULongLong"
abbreviation "DoubleTy \<equiv> builtin BT_Double"
abbreviation "LongDoubleTy \<equiv> builtin BT_LongDouble"

fun builtinWidth :: "BuiltinKind \<Rightarrow> nat" where
  "builtinWidth BT_Void = 0"
| "builtinWidth BT_Bool = 8"
| "builtinWidth BT_Char_U = 8"
| "builtinWidth BT_UChar = 8"
| "builtinWidth BT_Char_S = 8"
| "builtinWidth BT_SChar = 8"
| "builtinWidth BT_Short = 16"
| "builtinWidth BT_UShort = 16"
| "builtinWidth BT_Int = 32"
| "builtinWidth BT_UInt = 32"
| "builtinWidth BT_Long = 64"
| "builtinWidth BT_ULong = 64"
| "builtinWidth BT_LongLong = 64"
| "builtinWidth BT_ULongLong = 64"
| "builtinWidth BT_Float = 32"
| "builtinWidth BT_Double = 64"
| "builtinWidth BT_LongDouble = 128"

text \<open>\<^verbatim>\<open>getTypeSize\<close>; the checker asks it of integer types only.\<close>

definition getTypeSize :: "QualType \<Rightarrow> nat" where
  "getTypeSize t =
     (case getTypePtr (getCanonicalType t) of
        BuiltinType k \<Rightarrow> builtinWidth k
      | PointerType _ \<Rightarrow> 64
      | _ \<Rightarrow> 0)"

text \<open>\<^verbatim>\<open>getPromotedIntegerType\<close>: a signed promotable type becomes \<^verbatim>\<open>int\<close>, an
  unsigned one becomes \<^verbatim>\<open>int\<close> when it is narrower than \<^verbatim>\<open>int\<close> and
  \<^verbatim>\<open>unsigned int\<close> otherwise.\<close>

definition getPromotedIntegerType :: "QualType \<Rightarrow> QualType" where
  "getPromotedIntegerType t =
     (if isSignedIntegerType t then IntTy
      else if getTypeSize t \<noteq> getTypeSize IntTy then IntTy
      else UnsignedIntTy)"

text \<open>\<^verbatim>\<open>getCorrespondingUnsignedType\<close> answers with the builtin unsigned type of the
  same rank; the checker calls it on types with a signed integer representation only.\<close>

definition getCorrespondingUnsignedType :: "QualType \<Rightarrow> QualType" where
  "getCorrespondingUnsignedType t =
     (case canonicalBuiltin t of
        Some BT_Char_S \<Rightarrow> UnsignedCharTy
      | Some BT_SChar \<Rightarrow> UnsignedCharTy
      | Some BT_Short \<Rightarrow> UnsignedShortTy
      | Some BT_Int \<Rightarrow> UnsignedIntTy
      | Some BT_Long \<Rightarrow> UnsignedLongTy
      | Some BT_LongLong \<Rightarrow> UnsignedLongLongTy
      | _ \<Rightarrow> t)"

subsection \<open>The type manager\<close>

text \<open>
  Modelled from the spec: \<^verbatim>\<open>TypeManager\<close> (its source is not part of the files at
  hand). The spec describes it as the lookup service \<^verbatim>\<open>typeByName\<close> and
  \<^verbatim>\<open>pointerTypeByName\<close> that resolves the library's 16, 32 and 64 bit integer aliases,
  the variant, iterator and builder aggregates and the \<^verbatim>\<open>va_list\<close> marker. A name is
  resolved to the typedef of that name, as GLib declares it on the LP64 target; a name
  the table lacks is resolved to an opaque named type.
\<close>

definition typedef_of :: "string \<Rightarrow> QualType \<Rightarrow> QualType" where
  "typedef_of n u = QualType no_quals (TypedefType n u)"

definition record_of :: "string \<Rightarrow> QualType" where
  "record_of n = QualType no_quals (RecordType n)"

definition glib_typedefs :: "(string \<times> QualType) list" where
  "glib_typedefs =
     [(''gint16'', builtin BT_Short),
      (''guint16'', builtin BT_UShort),
      (''gint32'', builtin BT_Int),
      (''guint32'', builtin BT_UInt),
      (''gint64'', builtin BT_Long),
      (''guint64'', builtin BT_ULong),
      (''gint'', builtin BT_Int),
      (''gboolean'', typedef_of ''gint'' (builtin BT_Int)),
      (''gchar'', builtin BT_Char_S),
      (''guchar'', builtin BT_UChar),
      (''glong'', builtin BT_Long),
      (''gulong'', builtin BT_ULong),
      (''GVariant'', record_of ''_GVariant''),
      (''GVariantIter'', record_of ''_GVariantIter''),
      (''GVariantBuilder'', record_of ''_GVariantBuilder''),
      (''va_list'', typedef_of ''__builtin_va_list'' (record_of ''__va_list_tag''))]"

definition find_type_by_name :: "string \<Rightarrow> QualType" where
  "find_type_by_name n =
     (case map_of glib_typedefs n of
        Some u \<Rightarrow> typedef_of n u
      | None \<Rightarrow> record_of n)"

definition find_pointer_type_by_name :: "string \<Rightarrow> QualType" where
  "find_pointer_type_by_name n = getPointerType (find_type_by_name n)"

section \<open>Check flags\<close>

text \<open>
  \<^verbatim>\<open>VariantCheckFlags\<close> is a bit mask of six distinct single bits. A value of the
  mask is modelled as the set of the flags whose bit is set: \<^verbatim>\<open>flags | F\<close> is
  \<open>insert F flags\<close>, \<^verbatim>\<open>flags & ~F\<close> is \<open>flags - {F}\<close> and the test
  \<^verbatim>\<open>flags & F\<close> is \<open>F \<in> flags\<close>.
\<close>

datatype VariantCheckFlags =
    CHECK_FLAG_FORCE_GVARIANT
  | CHECK_FLAG_FORCE_VALIST
  | CHECK_FLAG_REQUIRE_CONST
  | CHECK_FLAG_DIRECTION_OUT
  | CHECK_FLAG_ALLOW_MAYBE
  | CHECK_FLAG_CONSUME_ARGS

type_synonym flags = "VariantCheckFlags set"

section \<open>Comparing types\<close>

text \<open>\<^verbatim>\<open>_compare_types\<close>: the fast path is \<^verbatim>\<open>hasSameType\<close>; otherwise both types
  must be pointers as written, and the pointees are compared, the actual pointee stripped
  of its qualifiers for inbound arguments.\<close>

lemma size_getSplitUnqualifiedTypeImpl:
  "size (getSplitUnqualifiedTypeImpl ty lastTypeWithQuals) \<le> max (size ty) (size lastTypeWithQuals)"
  by (induct ty lastTypeWithQuals rule: getSplitUnqualifiedTypeImpl.induct) auto

lemma size_getUnqualifiedType: "size (getUnqualifiedType p) \<le> size p"
proof (cases p)
  case (QualType qp tp)
  then show ?thesis
    using size_getSplitUnqualifiedTypeImpl[of tp tp] by (simp add: getUnqualifiedType_def)
qed

lemma size_pointee:
  assumes "dyn_cast_PointerType a = Some p"
  shows "size p < size a" and "size (getUnqualifiedType p) < size a"
proof -
  obtain qa ta where a: "a = QualType qa ta" by (cases a)
  from assms a have ta: "ta = PointerType p"
    by (simp add: dyn_cast_PointerType_def split: CType.splits)
  show "size p < size a" using a ta by simp
  then show "size (getUnqualifiedType p) < size a"
    using size_getUnqualifiedType[of p] by simp
qed

function compare_types :: "QualType \<Rightarrow> QualType \<Rightarrow> flags \<Rightarrow> bool" where
  "compare_types actual_type expected_type flags =
     (if hasSameType actual_type expected_type then True
      else
        (case dyn_cast_PointerType actual_type of
           None \<Rightarrow> False
         | Some actual_pointee_type \<Rightarrow>
             (case dyn_cast_PointerType expected_type of
                None \<Rightarrow> False
              | Some expected_pointee_type \<Rightarrow>
                  compare_types
                    (if CHECK_FLAG_DIRECTION_OUT \<notin> flags
                     then getUnqualifiedType actual_pointee_type else actual_pointee_type)
                    expected_pointee_type flags)))"
  by pat_completeness auto
termination
  by (relation "measure (\<lambda>(a, e, f). size a)") (auto simp: size_pointee)

declare compare_types.simps [simp del]


text \<open>\<^verbatim>\<open>_type_is_arch_dependent\<close>: pointers are stripped; a typedef is architecture
  dependent only under the names \<^verbatim>\<open>glong\<close> and \<^verbatim>\<open>gulong\<close>; otherwise the type is
  compared with \<^verbatim>\<open>long\<close>, \<^verbatim>\<open>unsigned long\<close> and \<^verbatim>\<open>long double\<close>.\<close>

fun type_is_arch_dependent :: "QualType \<Rightarrow> bool" where
  "type_is_arch_dependent (QualType q (PointerType p)) = type_is_arch_dependent p"
| "type_is_arch_dependent (QualType q (TypedefType typedef_name u)) =
     (typedef_name = ''glong'' \<or> typedef_name = ''gulong'')"
| "type_is_arch_dependent (QualType q t) =
     (hasSameType (QualType q t) LongTy \<or>
      hasSameType (QualType q t) UnsignedLongTy \<or>
      hasSameType (QualType q t) LongDoubleTy)"

section \<open>Arguments, diagnostics and the state of a check\<close>

text \<open>
  What the checker asks of a call argument: its static type, whether it is a null
  pointer constant, the value of an integer constant expression (if it is one), and,
  for the format parameter, the string when the argument is a string literal once
  parentheses and implicit casts are ignored.
\<close>

record Expr =
  getType :: QualType
  isNullPointerConstant :: bool
  isIntegerConstantExpr :: "int option"
  asStringLiteral :: "string option"

text \<open>A diagnostic is anchored at the format string argument or at a variadic
  argument. Each message of the source is a constructor holding its substitutions.\<close>

datatype SourceLocation = FormatArgLoc | ArgLoc Expr

datatype Message =
    NoArgument QualType
  | SawNull QualType
  | ArchDependent QualType QualType
  | TypeMismatch QualType QualType
  | NotBasicType string
  | TypeTupleNotClosed
  | TypeDictNotTwoElements
  | TypeDictNotClosed
  | TypeDictMoreThanTwoElements
  | UnknownConvenience
  | FormatTupleNotClosed
  | FormatDictNotTwoElements
  | FormatDictNotClosed
  | FormatDictMoreThanTwoElements
  | UnpairedFormatStrings string string
  | UnexpectedArgument QualType string
  | UnexpectedArgumentNoRepresentation QualType
  | NonLiteralFormatString string

datatype Diagnostic = Error Message SourceLocation | Warning Message SourceLocation

text \<open>The classes the spec sorts the messages into.\<close>

datatype DiagnosticClass =
    InvalidFormatChar | UnterminatedTuple | MalformedDictEntry | MissingArgument
  | NullNotAllowed | TypeMismatchClass | ArchDependentMismatch | UnconsumedFormatString
  | UnconsumedArguments | NonLiteralFormat

fun message_class :: "Message \<Rightarrow> DiagnosticClass" where
  "message_class (NoArgument e) = MissingArgument"
| "message_class (SawNull e) = NullNotAllowed"
| "message_class (ArchDependent e a) = ArchDependentMismatch"
| "message_class (TypeMismatch e a) = TypeMismatchClass"
| "message_class (NotBasicType c) = InvalidFormatChar"
| "message_class TypeTupleNotClosed = UnterminatedTuple"
| "message_class TypeDictNotTwoElements = MalformedDictEntry"
| "message_class TypeDictNotClosed = MalformedDictEntry"
| "message_class TypeDictMoreThanTwoElements = MalformedDictEntry"
| "message_class UnknownConvenience = InvalidFormatChar"
| "message_class FormatTupleNotClosed = UnterminatedTuple"
| "message_class FormatDictNotTwoElements = MalformedDictEntry"
| "message_class FormatDictNotClosed = MalformedDictEntry"
| "message_class FormatDictMoreThanTwoElements = MalformedDictEntry"
| "message_class (UnpairedFormatStrings r w) = UnconsumedFormatString"
| "message_class (UnexpectedArgument t f) = UnconsumedArguments"
| "message_class (UnexpectedArgumentNoRepresentation t) = UnconsumedArguments"
| "message_class (NonLiteralFormatString f) = NonLiteralFormat"

fun diagnostic_class :: "Diagnostic \<Rightarrow> DiagnosticClass" where
  "diagnostic_class (Error m l) = message_class m"
| "diagnostic_class (Warning m l) = message_class m"

text \<open>
  The parser works on two cursors, passed by reference in the source: the rest of the
  format string (\<^verbatim>\<open>*format_str\<close>, a C string, so the end of the list is the
  terminating NUL) and the arguments from \<^verbatim>\<open>*args_begin\<close> to \<^verbatim>\<open>*args_end\<close>.
  The diagnostics emitted so far are the third component, in the order of emission.
\<close>

record check_state =
  format_str :: string
  args_begin :: "Expr list"
  diagnostics :: "Diagnostic list"

definition emit_error :: "Message \<Rightarrow> SourceLocation \<Rightarrow> check_state \<Rightarrow> check_state" where
  "emit_error m l st = st\<lparr>diagnostics := diagnostics st @ [Error m l]\<rparr>"

definition emit_warning :: "Message \<Rightarrow> SourceLocation \<Rightarrow> check_state \<Rightarrow> check_state" where
  "emit_warning m l st = st\<lparr>diagnostics := diagnostics st @ [Warning m l]\<rparr>"

section \<open>Consuming a variadic argument\<close>

text \<open>
  The expected type after the overrides of \<^verbatim>\<open>_consume_variadic_argument\<close>: a forced
  type replaces it; for an outbound argument with a required const pointee, \<^verbatim>\<open>const\<close>
  is inserted one pointer level down; an outbound argument (not a forced
  \<^verbatim>\<open>va_list\<close>) gets one more pointer level.

  The const insertion casts the expected type with \<^verbatim>\<open>dyn_cast<PointerType>\<close> after
  testing \<^verbatim>\<open>isPointerType\<close>. On a typedef of a pointer the cast yields NULL, which
  the source then dereferences; \<open>dereferences_null\<close> is that situation, and there the
  model leaves the type as it is. Every expected type the parsers pass is either not a
  pointer or a pointer as written.
\<close>

definition forced_type :: "flags \<Rightarrow> QualType \<Rightarrow> QualType" where
  "forced_type flags expected_type =
     (if CHECK_FLAG_FORCE_GVARIANT \<in> flags then find_pointer_type_by_name ''GVariant''
      else if CHECK_FLAG_FORCE_VALIST \<in> flags then find_pointer_type_by_name ''va_list''
      else expected_type)"

definition dereferences_null :: "flags \<Rightarrow> QualType \<Rightarrow> bool" where
  "dereferences_null flags expected_type =
     (CHECK_FLAG_DIRECTION_OUT \<in> flags \<and> CHECK_FLAG_REQUIRE_CONST \<in> flags \<and>
      isPointerType (forced_type flags expected_type) \<and>
      dyn_cast_PointerType (forced_type flags expected_type) = None)"

definition expected_type_for :: "flags \<Rightarrow> QualType \<Rightarrow> QualType" where
  "expected_type_for flags expected_type =
     (let e1 = forced_type flags expected_type;
          e2 = (if CHECK_FLAG_DIRECTION_OUT \<in> flags \<and> CHECK_FLAG_REQUIRE_CONST \<in> flags \<and>
                   isPointerType e1
                then (case dyn_cast_PointerType e1 of
                        Some expected_pointee_type \<Rightarrow>
                          getPointerType (getConstType expected_pointee_type)
                      | None \<Rightarrow> e1)
                else e1)
      in if CHECK_FLAG_DIRECTION_OUT \<in> flags \<and> CHECK_FLAG_FORCE_VALIST \<notin> flags
         then getPointerType e2 else e2)"

text \<open>The type the argument is taken to have: a non-negative integer constant of a
  signed type counts as the corresponding unsigned type where an unsigned type is
  expected.\<close>

definition actual_type_of :: "QualType \<Rightarrow> Expr \<Rightarrow> QualType" where
  "actual_type_of expected_type arg =
     (case isIntegerConstantExpr arg of
        Some int_constant_value \<Rightarrow>
          if 0 \<le> int_constant_value \<and> isUnsignedIntegerType expected_type \<and>
             hasSignedIntegerRepresentation (getType arg)
          then getCorrespondingUnsignedType (getType arg)
          else getType arg
      | None \<Rightarrow> getType arg)"

definition consume_variadic_argument ::
    "QualType \<Rightarrow> flags \<Rightarrow> check_state \<Rightarrow> bool \<times> check_state" where
  "consume_variadic_argument expected_type0 flags st =
     (if CHECK_FLAG_CONSUME_ARGS \<notin> flags then (True, st)
      else
        let expected_type = expected_type_for flags expected_type0 in
        case args_begin st of
          [] \<Rightarrow> (False, emit_error (NoArgument expected_type) FormatArgLoc st)
        | arg # rest \<Rightarrow>
            let actual_type = actual_type_of expected_type arg in
            if isNullPointerConstant arg \<and> CHECK_FLAG_ALLOW_MAYBE \<notin> flags \<and>
               isPointerType expected_type
            then (False, emit_error (SawNull expected_type) (ArgLoc arg) st)
            else if \<not> isNullPointerConstant arg then
              (let type_error = \<not> compare_types actual_type expected_type flags;
                   arch_error = type_is_arch_dependent actual_type
               in if arch_error
                  then (False, emit_error (ArchDependent expected_type actual_type) (ArgLoc arg) st)
                  else if type_error
                  then (False, emit_error (TypeMismatch expected_type actual_type) (ArgLoc arg) st)
                  else (True, st\<lparr>args_begin := rest\<rparr>))
            else (True, st\<lparr>args_begin := rest\<rparr>))"

section \<open>The grammar parsers\<close>

text \<open>
  \<^verbatim>\<open>**type_str\<close> is the first character of the rest of the format string, the
  terminating NUL when nothing is left; \<^verbatim>\<open>*type_str = *type_str + n\<close> drops \<open>n\<close>
  characters.
\<close>

definition peek :: "string \<Rightarrow> char" where
  "peek s = (case s of [] \<Rightarrow> CHR 0x00 | c # _ \<Rightarrow> c)"

definition advance :: "nat \<Rightarrow> check_state \<Rightarrow> check_state" where
  "advance n st = st\<lparr>format_str := drop n (format_str st)\<rparr>"

text \<open>The \<^verbatim>\<open>switch\<close> of \<^verbatim>\<open>_check_basic_type_string\<close>, and the promotion of the
  integer types narrower than 32 bits for inbound arguments that follows it.\<close>

definition basic_type :: "char \<Rightarrow> QualType option" where
  "basic_type c =
     (if c = CHR ''b'' then Some IntTy
      else if c = CHR ''y'' then Some UnsignedCharTy
      else if c = CHR ''n'' then Some (find_type_by_name ''gint16'')
      else if c = CHR ''q'' then Some (find_type_by_name ''guint16'')
      else if c = CHR ''i'' \<or> c = CHR ''h'' then Some (find_type_by_name ''gint32'')
      else if c = CHR ''u'' then Some (find_type_by_name ''guint32'')
      else if c = CHR ''x'' then Some (find_type_by_name ''gint64'')
      else if c = CHR ''t'' then Some (find_type_by_name ''guint64'')
      else if c = CHR ''d'' then Some DoubleTy
      else if c = CHR ''s'' \<or> c = CHR ''o'' \<or> c = CHR ''g'' then Some (getPointerType CharTy)
      else if c = CHR ''?'' then Some (find_pointer_type_by_name ''GVariant'')
      else None)"

definition promoted_type :: "flags \<Rightarrow> char \<Rightarrow> QualType \<Rightarrow> QualType" where
  "promoted_type flags c expected_type =
     (if CHECK_FLAG_DIRECTION_OUT \<notin> flags \<and> (c = CHR ''y'' \<or> c = CHR ''n'' \<or> c = CHR ''q'')
      then getPromotedIntegerType expected_type else expected_type)"

text \<open>The table of convenience conversions after \<^verbatim>\<open>^\<close>: the expected type and
  the number of characters to skip. \<^verbatim>\<open>CONVENIENCE_FORMAT\<close> is \<^verbatim>\<open>strncmp\<close> over
  the length of the literal.\<close>

definition CONVENIENCE_FORMAT :: "string \<Rightarrow> string \<Rightarrow> bool" where
  "CONVENIENCE_FORMAT str_ptr f = (take (length f) str_ptr = f)"

definition convenience_type :: "string \<Rightarrow> (QualType \<times> nat) option" where
  "convenience_type s =
     (let char_array = getPointerType CharTy;
          const_char_array = getPointerType (getConstType CharTy)
      in if CONVENIENCE_FORMAT s ''as'' \<or> CONVENIENCE_FORMAT s ''ao''
         then Some (getPointerType char_array, 2)
         else if CONVENIENCE_FORMAT s ''a&s'' \<or> CONVENIENCE_FORMAT s ''a&o''
         then Some (getPointerType const_char_array, 3)
         else if CONVENIENCE_FORMAT s ''aay'' then Some (getPointerType char_array, 3)
         else if CONVENIENCE_FORMAT s ''ay'' then Some (char_array, 2)
         else if CONVENIENCE_FORMAT s ''&ay'' then Some (const_char_array, 3)
         else if CONVENIENCE_FORMAT s ''a&ay'' then Some (getPointerType const_char_array, 4)
         else None)"

text \<open>
  The four parsers of the source, \<^verbatim>\<open>_check_basic_type_string\<close>,
  \<^verbatim>\<open>_check_type_string\<close>, \<^verbatim>\<open>_check_basic_format_string\<close> and
  \<^verbatim>\<open>_check_format_string\<close>, call each other and themselves. Each takes the flags by
  value and the two cursors by reference, and returns whether it succeeded; here it
  returns the success together with the state it leaves behind, so the flags a callee
  works with never reach its caller. The \<^verbatim>\<open>while\<close> loops of the two tuple cases are
  \<open>check_type_tuple\<close> and \<open>check_format_tuple\<close>. The six functions are defined in one
  recursion, so that the recursion relation of the definition holds every call among
  them.
\<close>

function check_basic_type_string :: "flags \<Rightarrow> check_state \<Rightarrow> bool \<times> check_state"
  and check_type_string :: "flags \<Rightarrow> check_state \<Rightarrow> bool \<times> check_state"
  and check_type_tuple :: "flags \<Rightarrow> check_state \<Rightarrow> bool \<times> check_state"
  and check_basic_format_string :: "flags \<Rightarrow> check_state \<Rightarrow> bool \<times> check_state"
  and check_format_string :: "flags \<Rightarrow> check_state \<Rightarrow> bool \<times> check_state"
  and check_format_tuple :: "flags \<Rightarrow> check_state \<Rightarrow> bool \<times> check_state" where
  "check_basic_type_string flags st =
     (let c = peek (format_str st) in
      case basic_type c of
        None \<Rightarrow> (False, emit_error (NotBasicType [c]) FormatArgLoc st)
      | Some expected_type \<Rightarrow>
          consume_variadic_argument (promoted_type flags c expected_type) flags (advance 1 st))"
| "check_type_string flags st =
     (let c = peek (format_str st) in
      if c = CHR ''v'' then
        consume_variadic_argument (find_pointer_type_by_name ''GVariant'') flags (advance 1 st)
      else if c = CHR ''a'' then
        (let st1 = advance 1 st;
             flags1 = insert CHECK_FLAG_ALLOW_MAYBE flags;
             expected_type =
               (if CHECK_FLAG_DIRECTION_OUT \<in> flags1
                then find_pointer_type_by_name ''GVariantIter''
                else find_pointer_type_by_name ''GVariantBuilder'');
             (ok, st2) = check_type_string (flags1 - {CHECK_FLAG_CONSUME_ARGS}) st1
         in if \<not> ok then (False, st2)
            else consume_variadic_argument expected_type flags1 st2)
      else if c = CHR ''m'' then
        check_type_string (insert CHECK_FLAG_ALLOW_MAYBE flags) (advance 1 st)
      else if c = CHR ''('' then
        (let (ok, st1) = check_type_tuple flags (advance 1 st)
         in if \<not> ok then (False, st1)
            else if peek (format_str st1) \<noteq> CHR '')''
            then (False, emit_error TypeTupleNotClosed FormatArgLoc st1)
            else (True, advance 1 st1))
      else if c = CHR ''r'' then
        consume_variadic_argument (find_pointer_type_by_name ''GVariant'') flags (advance 1 st)
      else if c = CHR ''{'' then
        (let st1 = advance 1 st in
         if peek (format_str st1) = CHR ''}''
         then (False, emit_error TypeDictNotTwoElements FormatArgLoc st1)
         else
           (let (ok2, st2) = check_basic_type_string flags st1 in
            if \<not> ok2 then (False, st2)
            else if peek (format_str st2) = CHR ''}''
            then (False, emit_error TypeDictNotTwoElements FormatArgLoc st2)
            else
              (let (ok3, st3) = check_type_string flags st2 in
               if \<not> ok3 then (False, st3)
               else if peek (format_str st3) = CHR 0x00
               then (False, emit_error TypeDictNotClosed FormatArgLoc st3)
               else if peek (format_str st3) \<noteq> CHR ''}''
               then (False, emit_error TypeDictMoreThanTwoElements FormatArgLoc st3)
               else (True, advance 1 st3))))
      else if c = CHR ''*'' then
        consume_variadic_argument (find_pointer_type_by_name ''GVariant'') flags (advance 1 st)
      else check_basic_type_string flags st)"
| "check_type_tuple flags st =
     (if peek (format_str st) \<noteq> CHR '')'' \<and> peek (format_str st) \<noteq> CHR 0x00 then
        (let (ok, st1) = check_type_string flags st
         in if \<not> ok then (False, st1) else check_type_tuple flags st1)
      else (True, st))"
| "check_basic_format_string flags st =
     (let c = peek (format_str st) in
      if c = CHR ''@'' then
        check_basic_type_string (insert CHECK_FLAG_FORCE_GVARIANT flags) (advance 1 st)
      else if c = CHR ''?'' then
        consume_variadic_argument (find_pointer_type_by_name ''GVariant'') flags (advance 1 st)
      else if c = CHR ''&'' then
        check_basic_type_string (insert CHECK_FLAG_REQUIRE_CONST flags) (advance 1 st)
      else if c = CHR ''^'' then
        (let st1 = advance 1 st in
         case convenience_type (format_str st1) of
           None \<Rightarrow> (False, emit_error UnknownConvenience FormatArgLoc st1)
         | Some (expected_type, skip) \<Rightarrow>
             consume_variadic_argument expected_type flags (advance skip st1))
      else check_basic_type_string flags st)"
| "check_format_string flags st =
     (let c = peek (format_str st) in
      if c = CHR ''@'' then
        check_type_string (insert CHECK_FLAG_FORCE_GVARIANT flags) (advance 1 st)
      else if c = CHR ''m'' then
        check_format_string (insert CHECK_FLAG_ALLOW_MAYBE flags) (advance 1 st)
      else if c = CHR ''*'' \<or> c = CHR ''?'' \<or> c = CHR ''r'' then
        consume_variadic_argument (find_pointer_type_by_name ''GVariant'') flags (advance 1 st)
      else if c = CHR ''('' then
        (let (ok, st1) = check_format_tuple flags (advance 1 st)
         in if \<not> ok then (False, st1)
            else if peek (format_str st1) \<noteq> CHR '')''
            then (False, emit_error FormatTupleNotClosed FormatArgLoc st1)
            else (True, advance 1 st1))
      else if c = CHR ''{'' then
        (let st1 = advance 1 st in
         if peek (format_str st1) = CHR ''}''
         then (False, emit_error FormatDictNotTwoElements FormatArgLoc st1)
         else
           (let (ok2, st2) = check_basic_format_string flags st1 in
            if \<not> ok2 then (False, st2)
            else if peek (format_str st2) = CHR ''}''
            then (False, emit_error FormatDictNotTwoElements FormatArgLoc st2)
            else
              (let (ok3, st3) = check_format_string flags st2 in
               if \<not> ok3 then (False, st3)
               else if peek (format_str st3) = CHR 0x00
               then (False, emit_error FormatDictNotClosed FormatArgLoc st3)
               else if peek (format_str st3) \<noteq> CHR ''}''
               then (False, emit_error FormatDictMoreThanTwoElements FormatArgLoc st3)
               else (True, advance 1 st3))))
      else if c = CHR ''&'' then
        check_type_string (insert CHECK_FLAG_REQUIRE_CONST flags) (advance 1 st)
      else if c = CHR ''^'' then check_basic_format_string flags st
      else check_type_string flags st)"
| "check_format_tuple flags st =
     (if peek (format_str st) \<noteq> CHR '')'' \<and> peek (format_str st) \<noteq> CHR 0x00 then
        (let (ok, st1) = check_format_string flags st
         in if \<not> ok then (False, st1) else check_format_tuple flags st1)
      else (True, st))"
  by pat_completeness auto

text \<open>
  Termination: a successful parser leaves a strictly shorter format string, and no
  parser makes it longer. This is first shown for the arguments on which the recursion
  is known to end, which is what the nested calls of the dictionary and tuple cases
  need.
\<close>

abbreviation "parser_dom \<equiv> check_basic_type_string_check_type_string_check_type_tuple_check_basic_format_string_check_format_string_check_format_tuple_dom"

lemmas parser_pinduct = check_basic_type_string_check_type_string_check_type_tuple_check_basic_format_string_check_format_string_check_format_tuple.pinduct

lemma format_str_emit_error [simp]: "format_str (emit_error m l st) = format_str st"
  by (simp add: emit_error_def)

lemma format_str_advance [simp]: "format_str (advance n st) = drop n (format_str st)"
  by (simp add: advance_def)

lemma format_str_consume [simp]:
  "format_str (snd (consume_variadic_argument e flags st)) = format_str st"
  by (simp add: consume_variadic_argument_def Let_def split: list.splits)

lemma peek_Nil [simp]: "peek [] = CHR 0x00"
  by (simp add: peek_def)

lemma peek_Cons [simp]: "peek (c # s) = c"
  by (simp add: peek_def)

lemma peek_nonempty: "peek s \<noteq> CHR 0x00 \<Longrightarrow> s \<noteq> []"
  by (cases s) simp_all

lemma basic_type_NUL [simp]: "basic_type (CHR 0x00) = None"
  by (simp add: basic_type_def)

definition shrinks :: "check_state \<Rightarrow> bool \<times> check_state \<Rightarrow> bool" where
  "shrinks st r =
     (length (format_str (snd r)) \<le> length (format_str st) \<and>
      (fst r \<longrightarrow> length (format_str (snd r)) < length (format_str st)))"

definition no_growth :: "check_state \<Rightarrow> bool \<times> check_state \<Rightarrow> bool" where
  "no_growth st r = (length (format_str (snd r)) \<le> length (format_str st))"

lemma shrinks_consume:
  "format_str st \<noteq> [] \<Longrightarrow> 0 < n \<Longrightarrow> shrinks st (consume_variadic_argument e flags (advance n st))"
  by (cases "format_str st") (simp_all add: shrinks_def)

lemma shrinks_fail: "length (format_str st') \<le> length (format_str st) \<Longrightarrow> shrinks st (False, st')"
  by (simp add: shrinks_def)

lemma convenience_type_skip:
  "convenience_type s = Some (e, n) \<Longrightarrow> 0 < n"
  by (auto simp: convenience_type_def Let_def split: if_splits)

lemma length_advance:
  "peek (format_str st) \<noteq> CHR 0x00 \<Longrightarrow>
   length (format_str (advance 1 st)) < length (format_str st)"
  by (cases "format_str st") simp_all

lemma shrinks_weaken:
  "shrinks st1 r \<Longrightarrow> length (format_str st1) \<le> length (format_str st) \<Longrightarrow> shrinks st r"
  by (auto simp: shrinks_def)

lemma shrinks_array:
  assumes "shrinks st1 r" and "length (format_str st1) < length (format_str st)"
  shows "shrinks st (case r of (ok, st2) \<Rightarrow>
           if \<not> ok then (False, st2) else consume_variadic_argument e flags st2)"
  using assms by (auto simp: shrinks_def split: prod.splits)

lemma shrinks_tuple:
  assumes "no_growth st1 r" and "length (format_str st1) < length (format_str st)"
  shows "shrinks st (case r of (ok, st2) \<Rightarrow>
           if \<not> ok then (False, st2)
           else if peek (format_str st2) \<noteq> CHR '')'' then (False, emit_error m l st2)
           else (True, advance 1 st2))"
  using assms by (auto simp: shrinks_def no_growth_def split: prod.splits)

lemma shrinks_dict_value:
  assumes "shrinks st2 r" and "length (format_str st2) < length (format_str st)"
  shows "shrinks st (case r of (ok3, st3) \<Rightarrow>
           if \<not> ok3 then (False, st3)
           else if peek (format_str st3) = CHR 0x00 then (False, emit_error m1 l st3)
           else if peek (format_str st3) \<noteq> CHR ''}'' then (False, emit_error m2 l st3)
           else (True, advance 1 st3))"
  using assms by (auto simp: shrinks_def split: prod.splits)

lemma no_growth_loop:
  assumes "shrinks st r"
      and "\<And>st1. r = (True, st1) \<Longrightarrow> no_growth st1 (k st1)"
  shows "no_growth st (case r of (ok, st1) \<Rightarrow> if \<not> ok then (False, st1) else k st1)"
  using assms by (cases r) (auto simp: shrinks_def no_growth_def)

lemma parser_shrinks_partial:
  shows "parser_dom (Inl (Inl (flags, st))) \<Longrightarrow> shrinks st (check_basic_type_string flags st)"
    and "parser_dom (Inl (Inr (Inl (flags, st)))) \<Longrightarrow> shrinks st (check_type_string flags st)"
    and "parser_dom (Inl (Inr (Inr (flags, st)))) \<Longrightarrow> no_growth st (check_type_tuple flags st)"
    and "parser_dom (Inr (Inl (flags, st))) \<Longrightarrow> shrinks st (check_basic_format_string flags st)"
    and "parser_dom (Inr (Inr (Inl (flags, st)))) \<Longrightarrow> shrinks st (check_format_string flags st)"
    and "parser_dom (Inr (Inr (Inr (flags, st)))) \<Longrightarrow> no_growth st (check_format_tuple flags st)"
proof (induct rule: parser_pinduct)
  case (1 flags st)
  show ?case
  proof (cases "basic_type (peek (format_str st))")
    case None
    then show ?thesis using 1 by (simp add: check_basic_type_string.psimps shrinks_def)
  next
    case (Some e)
    then have "peek (format_str st) \<noteq> CHR 0x00" by auto
    then have "format_str st \<noteq> []" by (rule peek_nonempty)
    then show ?thesis using 1 Some
      by (simp add: check_basic_type_string.psimps shrinks_consume)
  qed
next
  case (2 flags st)
  note unf = check_type_string.psimps[OF 2(1)]
  let ?c = "peek (format_str st)"
  have ne: "format_str st \<noteq> []" if "?c \<noteq> CHR 0x00"
    using that by (rule peek_nonempty)
  consider (v) "?c = CHR ''v''" | (a) "?c = CHR ''a''" | (m) "?c = CHR ''m''"
    | (tuple) "?c = CHR ''(''" | (r) "?c = CHR ''r''" | (dict) "?c = CHR ''{''"
    | (star) "?c = CHR ''*''"
    | (other) "?c \<noteq> CHR ''v''" "?c \<noteq> CHR ''a''" "?c \<noteq> CHR ''m''" "?c \<noteq> CHR ''(''"
        "?c \<noteq> CHR ''r''" "?c \<noteq> CHR ''{''" "?c \<noteq> CHR ''*''"
    by blast
  then show ?case
  proof cases
    case v
    then show ?thesis by (simp add: unf shrinks_consume ne)
  next
    case a
    have ih: "shrinks (advance 1 st)
        (check_type_string (insert CHECK_FLAG_ALLOW_MAYBE flags - {CHECK_FLAG_CONSUME_ARGS})
           (advance 1 st))"
      by (rule 2(2)) (simp_all add: a)
    have lt: "length (format_str (advance 1 st)) < length (format_str st)"
      by (rule length_advance) (simp add: a)
    show ?thesis
      unfolding unf using shrinks_array[OF ih lt] by (simp add: a Let_def)
  next
    case m
    have ih: "shrinks (advance 1 st)
        (check_type_string (insert CHECK_FLAG_ALLOW_MAYBE flags) (advance 1 st))"
      by (rule 2(3)) (simp_all add: m)
    have lt: "length (format_str (advance 1 st)) < length (format_str st)"
      by (rule length_advance) (simp add: m)
    show ?thesis
      unfolding unf using shrinks_weaken[OF ih] lt by (simp add: m Let_def)
  next
    case tuple
    have ih: "no_growth (advance 1 st) (check_type_tuple flags (advance 1 st))"
      by (rule 2(4)) (simp_all add: tuple)
    have lt: "length (format_str (advance 1 st)) < length (format_str st)"
      by (rule length_advance) (simp add: tuple)
    show ?thesis
      unfolding unf using shrinks_tuple[OF ih lt] by (simp add: tuple Let_def)
  next
    case r
    then show ?thesis by (simp add: unf shrinks_consume ne)
  next
    case dict
    have lt: "length (format_str (advance 1 st)) < length (format_str st)"
      by (rule length_advance) (simp add: dict)
    show ?thesis
    proof (cases "peek (format_str (advance 1 st)) = CHR ''}''")
      case True
      then show ?thesis using lt by (simp add: unf dict Let_def shrinks_def)
    next
      case False
      then have nb1: "peek (drop (Suc 0) (format_str st)) \<noteq> CHR ''}''" by simp
      have key: "shrinks (advance 1 st) (check_basic_type_string flags (advance 1 st))"
        by (rule 2(5)) (simp_all add: dict nb1)
      obtain ok2 st2 where r: "check_basic_type_string flags (advance 1 st) = (ok2, st2)"
        by fastforce
      have le2: "length (format_str st2) < length (format_str st)"
        using key lt r by (simp add: shrinks_def)
      show ?thesis
      proof (cases "ok2 \<and> peek (format_str st2) \<noteq> CHR ''}''")
        case True
        have ih: "shrinks st2 (check_type_string flags st2)"
          by (rule 2(6)[where x = "peek (format_str st)" and xa = "advance 1 st"
                and xb = "check_basic_type_string flags (advance 1 st)" and xc = True])
             (use dict nb1 r True in simp_all)
        show ?thesis
          unfolding unf using shrinks_dict_value[OF ih le2] r True nb1
          by (simp add: dict Let_def)
      next
        case False
        then show ?thesis
          unfolding unf using r nb1 le2 by (auto simp: dict Let_def shrinks_def)
      qed
    qed
  next
    case star
    then show ?thesis by (simp add: unf shrinks_consume ne)
  next
    case other
    have ih: "shrinks st (check_basic_type_string flags st)"
      by (rule 2(7)[OF refl other])
    show ?thesis unfolding unf using ih other by (simp add: Let_def)
  qed
next
  case (3 flags st)
  note unf = check_type_tuple.psimps[OF 3(1)]
  show ?case
  proof (cases "peek (format_str st) \<noteq> CHR '')'' \<and> peek (format_str st) \<noteq> CHR 0x00")
    case True
    have ih: "shrinks st (check_type_string flags st)"
      by (rule 3(2)) (rule True)
    have loop: "no_growth st1 (check_type_tuple flags st1)"
      if "check_type_string flags st = (True, st1)" for st1
      by (rule 3(3)[where x = "check_type_string flags st" and xa = True])
         (use True that in simp_all)
    show ?thesis
      unfolding unf using no_growth_loop[OF ih loop] True by simp
  next
    case False
    then show ?thesis unfolding unf by (auto simp: no_growth_def)
  qed
next
  case (4 flags st)
  note unf = check_basic_format_string.psimps[OF 4(1)]
  let ?c = "peek (format_str st)"
  have ne: "format_str st \<noteq> []" if "?c \<noteq> CHR 0x00"
    using that by (rule peek_nonempty)
  consider (at) "?c = CHR ''@''" | (qm) "?c = CHR ''?''" | (amp) "?c = CHR ''&''"
    | (conv) "?c = CHR ''^''"
    | (other) "?c \<noteq> CHR ''@''" "?c \<noteq> CHR ''?''" "?c \<noteq> CHR ''&''" "?c \<noteq> CHR ''^''"
    by blast
  then show ?case
  proof cases
    case at
    have ih: "shrinks (advance 1 st)
        (check_basic_type_string (insert CHECK_FLAG_FORCE_GVARIANT flags) (advance 1 st))"
      by (rule 4(2)[OF refl at])
    have lt: "length (format_str (advance 1 st)) < length (format_str st)"
      by (rule length_advance) (simp add: at)
    show ?thesis
      unfolding unf using shrinks_weaken[OF ih] lt by (simp add: at Let_def)
  next
    case qm
    then show ?thesis by (simp add: unf shrinks_consume ne)
  next
    case amp
    have ih: "shrinks (advance 1 st)
        (check_basic_type_string (insert CHECK_FLAG_REQUIRE_CONST flags) (advance 1 st))"
      by (rule 4(3)[OF refl _ _ amp]) (simp_all add: amp)
    have lt: "length (format_str (advance 1 st)) < length (format_str st)"
      by (rule length_advance) (simp add: amp)
    show ?thesis
      unfolding unf using shrinks_weaken[OF ih] lt by (simp add: amp Let_def)
  next
    case conv
    have lt: "length (format_str (advance 1 st)) < length (format_str st)"
      by (rule length_advance) (simp add: conv)
    show ?thesis
    proof (cases "convenience_type (format_str (advance 1 st))")
      case None
      then show ?thesis unfolding unf using lt by (simp add: conv Let_def shrinks_def)
    next
      case (Some p)
      have "format_str st \<noteq> []" by (rule ne) (simp add: conv)
      with Some show ?thesis unfolding unf
        by (cases p) (simp add: conv Let_def shrinks_def)
    qed
  next
    case other
    have ih: "shrinks st (check_basic_type_string flags st)"
      by (rule 4(4)[OF refl other])
    show ?thesis unfolding unf using ih other by (simp add: Let_def)
  qed
next
  case (5 flags st)
  note unf = check_format_string.psimps[OF 5(1)]
  let ?c = "peek (format_str st)"
  have ne: "format_str st \<noteq> []" if "?c \<noteq> CHR 0x00"
    using that by (rule peek_nonempty)
  consider (at) "?c = CHR ''@''" | (m) "?c = CHR ''m''"
    | (direct) "?c = CHR ''*'' \<or> ?c = CHR ''?'' \<or> ?c = CHR ''r''"
    | (tuple) "?c = CHR ''(''" | (dict) "?c = CHR ''{''" | (amp) "?c = CHR ''&''"
    | (conv) "?c = CHR ''^''"
    | (other) "?c \<noteq> CHR ''@''" "?c \<noteq> CHR ''m''"
        "\<not> (?c = CHR ''*'' \<or> ?c = CHR ''?'' \<or> ?c = CHR ''r'')" "?c \<noteq> CHR ''(''"
        "?c \<noteq> CHR ''{''" "?c \<noteq> CHR ''&''" "?c \<noteq> CHR ''^''"
    by blast
  then show ?case
  proof cases
    case at
    have ih: "shrinks (advance 1 st)
        (check_type_string (insert CHECK_FLAG_FORCE_GVARIANT flags) (advance 1 st))"
      by (rule 5(2)[OF refl at])
    have lt: "length (format_str (advance 1 st)) < length (format_str st)"
      by (rule length_advance) (simp add: at)
    show ?thesis
      unfolding unf using shrinks_weaken[OF ih] lt by (simp add: at Let_def)
  next
    case m
    have ih: "shrinks (advance 1 st)
        (check_format_string (insert CHECK_FLAG_ALLOW_MAYBE flags) (advance 1 st))"
      by (rule 5(3)[OF refl _ m]) (simp add: m)
    have lt: "length (format_str (advance 1 st)) < length (format_str st)"
      by (rule length_advance) (simp add: m)
    show ?thesis
      unfolding unf using shrinks_weaken[OF ih] lt by (simp add: m Let_def)
  next
    case direct
    then have "?c \<noteq> CHR 0x00" by auto
    from ne[OF this] direct show ?thesis
      unfolding unf by (auto simp: Let_def shrinks_consume)
  next
    case tuple
    have ih: "no_growth (advance 1 st) (check_format_tuple flags (advance 1 st))"
      by (rule 5(4)[OF refl _ _ _ tuple]) (simp_all add: tuple)
    have lt: "length (format_str (advance 1 st)) < length (format_str st)"
      by (rule length_advance) (simp add: tuple)
    show ?thesis
      unfolding unf using shrinks_tuple[OF ih lt] by (simp add: tuple Let_def)
  next
    case dict
    have lt: "length (format_str (advance 1 st)) < length (format_str st)"
      by (rule length_advance) (simp add: dict)
    show ?thesis
    proof (cases "peek (format_str (advance 1 st)) = CHR ''}''")
      case True
      then show ?thesis using lt by (simp add: unf dict Let_def shrinks_def)
    next
      case False
      then have nb1: "peek (drop (Suc 0) (format_str st)) \<noteq> CHR ''}''" by simp
      have key: "shrinks (advance 1 st) (check_basic_format_string flags (advance 1 st))"
        by (rule 5(5)[OF refl _ _ _ _ dict refl]) (simp_all add: dict nb1)
      obtain ok2 st2 where r: "check_basic_format_string flags (advance 1 st) = (ok2, st2)"
        by fastforce
      have le2: "length (format_str st2) < length (format_str st)"
        using key lt r by (simp add: shrinks_def)
      show ?thesis
      proof (cases "ok2 \<and> peek (format_str st2) \<noteq> CHR ''}''")
        case True
        have ih: "shrinks st2 (check_format_string flags st2)"
          by (rule 5(6)[where x = "peek (format_str st)" and xa = "advance 1 st"
                and xb = "check_basic_format_string flags (advance 1 st)" and xc = True])
             (use dict nb1 r True in simp_all)
        show ?thesis
          unfolding unf using shrinks_dict_value[OF ih le2] r True nb1
          by (simp add: dict Let_def)
      next
        case False
        then show ?thesis
          unfolding unf using r nb1 le2 by (auto simp: dict Let_def shrinks_def)
      qed
    qed
  next
    case amp
    have ih: "shrinks (advance 1 st)
        (check_type_string (insert CHECK_FLAG_REQUIRE_CONST flags) (advance 1 st))"
      by (rule 5(7)[OF refl _ _ _ _ _ amp]) (simp_all add: amp)
    have lt: "length (format_str (advance 1 st)) < length (format_str st)"
      by (rule length_advance) (simp add: amp)
    show ?thesis
      unfolding unf using shrinks_weaken[OF ih] lt by (simp add: amp Let_def)
  next
    case conv
    have ih: "shrinks st (check_basic_format_string flags st)"
      by (rule 5(8)[OF refl _ _ _ _ _ _ conv]) (simp_all add: conv)
    show ?thesis unfolding unf using ih by (simp add: conv Let_def)
  next
    case other
    have ih: "shrinks st (check_type_string flags st)"
      by (rule 5(9)[OF refl other])
    show ?thesis unfolding unf using ih other by (simp add: Let_def)
  qed
next
  case (6 flags st)
  note unf = check_format_tuple.psimps[OF 6(1)]
  show ?case
  proof (cases "peek (format_str st) \<noteq> CHR '')'' \<and> peek (format_str st) \<noteq> CHR 0x00")
    case True
    have ih: "shrinks st (check_format_string flags st)"
      by (rule 6(2)) (rule True)
    have loop: "no_growth st1 (check_format_tuple flags st1)"
      if "check_format_string flags st = (True, st1)" for st1
      by (rule 6(3)[where x = "check_format_string flags st" and xa = True])
         (use True that in simp_all)
    show ?thesis
      unfolding unf using no_growth_loop[OF ih loop] True by simp
  next
    case False
    then show ?thesis unfolding unf by (auto simp: no_growth_def)
  qed
qed

definition parser_measure ::
    "((flags \<times> check_state) + (flags \<times> check_state) + (flags \<times> check_state)) +
     ((flags \<times> check_state) + (flags \<times> check_state) + (flags \<times> check_state)) \<Rightarrow> nat" where
  "parser_measure x =
     (case x of
        Inl (Inl (flags, st)) \<Rightarrow> 4 * length (format_str st)
      | Inl (Inr (Inl (flags, st))) \<Rightarrow> 4 * length (format_str st) + 1
      | Inl (Inr (Inr (flags, st))) \<Rightarrow> 4 * length (format_str st) + 2
      | Inr (Inl (flags, st)) \<Rightarrow> 4 * length (format_str st) + 1
      | Inr (Inr (Inl (flags, st))) \<Rightarrow> 4 * length (format_str st) + 2
      | Inr (Inr (Inr (flags, st))) \<Rightarrow> 4 * length (format_str st) + 3)"

lemma shrinks_TrueD:
  "shrinks st r \<Longrightarrow> (True, y) = r \<Longrightarrow> length (format_str y) < length (format_str st)"
  by (auto simp: shrinks_def)

lemma peek_eq_length:
  "c = peek s \<Longrightarrow> c \<noteq> CHR 0x00 \<Longrightarrow> length s - Suc 0 < length s"
  by (cases s) simp_all

termination check_basic_type_string
proof (relation "measure parser_measure", goal_cases)
  case 1
  show ?case by simp
next
  case (6 flags st x xa xb xc y)
  have "shrinks xa (check_basic_type_string flags xa)"
    using 6 by (intro parser_shrinks_partial(1))
  then have "length (format_str y) < length (format_str xa)"
    using 6 by (intro shrinks_TrueD[where r = xb]) simp_all
  then show ?case using 6 by (simp add: parser_measure_def)
next
  case (9 flags st x xa y)
  have "shrinks st (check_type_string flags st)"
    using 9 by (intro parser_shrinks_partial(2))
  then have "length (format_str y) < length (format_str st)"
    using 9 by (intro shrinks_TrueD[where r = x]) simp_all
  then show ?case by (simp add: parser_measure_def)
next
  case (17 flags st x xa xb xc y)
  have "shrinks xa (check_basic_format_string flags xa)"
    using 17 by (intro parser_shrinks_partial(4))
  then have "length (format_str y) < length (format_str xa)"
    using 17 by (intro shrinks_TrueD[where r = xb]) simp_all
  then show ?case using 17 by (simp add: parser_measure_def)
next
  case (22 flags st x xa y)
  have "shrinks st (check_format_string flags st)"
    using 22 by (intro parser_shrinks_partial(5))
  then have "length (format_str y) < length (format_str st)"
    using 22 by (intro shrinks_TrueD[where r = x]) simp_all
  then show ?case by (simp add: parser_measure_def)
qed (auto simp: parser_measure_def dest: peek_eq_length)


section \<open>Suggesting a format string for a type\<close>

text \<open>\<^verbatim>\<open>_gvariant_format_string_for_type\<close>: the format string that would fit an
  argument of the given type, if one is known. A signed or unsigned integer type of a
  width other than 16, 32 and 64 bits leaves the chain without a result.\<close>

definition gvariant_format_string_for_type :: "QualType \<Rightarrow> string option" where
  "gvariant_format_string_for_type type =
     (let bt = dyn_cast_BuiltinType type in
      if bt = Some BT_Bool \<or> type = find_pointer_type_by_name ''gboolean'' then Some ''b''
      else if bt = Some BT_UChar then Some ''y''
      else if bt = Some BT_LongDouble then Some ''d''
      else if isSignedIntegerType type then
        (let size = getTypeSize type in
         if size = 16 then Some ''n''
         else if size = 32 then Some ''i''
         else if size = 64 then Some ''x''
         else None)
      else if isUnsignedIntegerType type then
        (let size = getTypeSize type in
         if size = 16 then Some ''q''
         else if size = 32 then Some ''u''
         else if size = 64 then Some ''t''
         else None)
      else if isPointerType type then
        (case getPointeeType type of
           None \<Rightarrow> None
         | Some pointee_type \<Rightarrow>
             if isCharType pointee_type \<and> isConstQualified pointee_type then Some ''&s''
             else if isCharType pointee_type then Some ''s''
             else if pointee_type = find_pointer_type_by_name ''GVariant'' then Some ''v''
             else if isPointerType pointee_type then
               (case getPointeeType pointee_type of
                  None \<Rightarrow> None
                | Some pointee2_type \<Rightarrow>
                    if isCharType pointee2_type then Some ''^as'' else None)
             else None)
      else None)"

section \<open>Checking one call\<close>

text \<open>The table of the functions that take a GVariant format string.\<close>

record VariantFuncInfo =
  func_name :: string
  format_param_index :: nat
  first_vararg_param_index :: nat
  uses_va_list :: bool
  args_in :: bool

definition gvariant_format_funcs :: "VariantFuncInfo list" where
  "gvariant_format_funcs =
     [\<lparr>func_name = ''g_variant_new'', format_param_index = 0, first_vararg_param_index = 1,
        uses_va_list = False, args_in = True\<rparr>,
      \<lparr>func_name = ''g_variant_new_va'', format_param_index = 0, first_vararg_param_index = 2,
        uses_va_list = True, args_in = True\<rparr>,
      \<lparr>func_name = ''g_variant_get'', format_param_index = 1, first_vararg_param_index = 2,
        uses_va_list = False, args_in = False\<rparr>,
      \<lparr>func_name = ''g_variant_get_va'', format_param_index = 1, first_vararg_param_index = 3,
        uses_va_list = True, args_in = False\<rparr>,
      \<lparr>func_name = ''g_variant_get_child'', format_param_index = 2,
        first_vararg_param_index = 3, uses_va_list = False, args_in = False\<rparr>,
      \<lparr>func_name = ''g_variant_lookup'', format_param_index = 2, first_vararg_param_index = 3,
        uses_va_list = False, args_in = False\<rparr>,
      \<lparr>func_name = ''g_variant_iter_next'', format_param_index = 1,
        first_vararg_param_index = 2, uses_va_list = False, args_in = False\<rparr>,
      \<lparr>func_name = ''g_variant_iter_loop'', format_param_index = 1,
        first_vararg_param_index = 2, uses_va_list = False, args_in = False\<rparr>,
      \<lparr>func_name = ''g_variant_builder_add'', format_param_index = 1,
        first_vararg_param_index = 2, uses_va_list = False, args_in = True\<rparr>]"

text \<open>\<^verbatim>\<open>_func_uses_gvariant_format\<close>: names that do not start with \<^verbatim>\<open>g\<close> are
  dismissed at once (the first character of an empty name is its NUL), the others are
  looked up in the table.\<close>

definition func_uses_gvariant_format :: "string \<Rightarrow> VariantFuncInfo option" where
  "func_uses_gvariant_format name =
     (if peek name \<noteq> CHR ''g'' then None
      else find (\<lambda>info. name = func_name info) gvariant_format_funcs)"

text \<open>The diagnostic for one argument the format string left over, and the loop that
  reports every such argument.\<close>

definition unexpected_argument :: "Expr \<Rightarrow> Diagnostic" where
  "unexpected_argument arg =
     (case gvariant_format_string_for_type (getType arg) of
        Some error_format_str \<Rightarrow>
          Error (UnexpectedArgument (getType arg) error_format_str) (ArgLoc arg)
      | None \<Rightarrow> Error (UnexpectedArgumentNoRepresentation (getType arg)) (ArgLoc arg))"

fun unconsumed_arguments ::
    "bool \<Rightarrow> Expr list \<Rightarrow> bool \<times> Diagnostic list \<Rightarrow> bool \<times> Diagnostic list" where
  "unconsumed_arguments va_list [] (retval, ds) = (retval, ds)"
| "unconsumed_arguments va_list (arg # rest) (retval, ds) =
     (if va_list then (retval, ds)
      else unconsumed_arguments va_list rest (False, ds @ [unexpected_argument arg]))"

definition initial_flags :: "VariantFuncInfo \<Rightarrow> flags" where
  "initial_flags func_info =
     (if \<not> uses_va_list func_info then {CHECK_FLAG_CONSUME_ARGS} else {CHECK_FLAG_FORCE_VALIST}) \<union>
     (if \<not> args_in func_info then {CHECK_FLAG_DIRECTION_OUT, CHECK_FLAG_ALLOW_MAYBE} else {})"

text \<open>
  \<^verbatim>\<open>_check_gvariant_format_param\<close>, on the arguments of the call, the name of the
  callee and its table entry. The result is the returned boolean with the diagnostics
  emitted. A call with fewer arguments than the table entry demands cannot be checked
  (\<^verbatim>\<open>getArg\<close> and the iterator run out of range): the result is \<open>None\<close>. The
  string examined is the literal up to its first NUL, as \<^verbatim>\<open>g_strdup\<close> copies it.
\<close>

definition check_gvariant_format_param ::
    "Expr list \<Rightarrow> string \<Rightarrow> VariantFuncInfo \<Rightarrow> (bool \<times> Diagnostic list) option" where
  "check_gvariant_format_param call_args callee func_info =
     (if length call_args \<le> format_param_index func_info \<or>
         length call_args < first_vararg_param_index func_info then None
      else
        let format_arg = call_args ! format_param_index func_info in
        case asStringLiteral format_arg of
          None \<Rightarrow> Some (False, [Warning (NonLiteralFormatString callee) (ArgLoc format_arg)])
        | Some literal \<Rightarrow>
            let whole_format_str = takeWhile (\<lambda>c. c \<noteq> CHR 0x00) literal;
                st = \<lparr>format_str = whole_format_str,
                      args_begin = drop (first_vararg_param_index func_info) call_args,
                      diagnostics = []\<rparr>;
                (ok, st1) = check_format_string (initial_flags func_info) st
            in if \<not> ok then Some (False, diagnostics st1)
               else if peek (format_str st1) \<noteq> CHR 0x00
               then Some (False, diagnostics st1 @
                      [Error (UnpairedFormatStrings (format_str st1) whole_format_str)
                         FormatArgLoc])
               else Some (unconsumed_arguments (uses_va_list func_info) (args_begin st1)
                            (True, diagnostics st1)))"

definition g_variant_new :: VariantFuncInfo where
  "g_variant_new = \<lparr>func_name = ''g_variant_new'', format_param_index = 0,
     first_vararg_param_index = 1, uses_va_list = False, args_in = True\<rparr>"

definition g_variant_iter_loop :: VariantFuncInfo where
  "g_variant_iter_loop = \<lparr>func_name = ''g_variant_iter_loop'', format_param_index = 1,
     first_vararg_param_index = 2, uses_va_list = False, args_in = False\<rparr>"


section \<open>Types and arguments used in examples\<close>

definition char_ptr :: QualType where
  "char_ptr = getPointerType CharTy"

definition const_char_ptr :: QualType where
  "const_char_ptr = getPointerType (getConstType CharTy)"

definition cchar :: QualType where
  "cchar = typedef_of ''cchar'' (getConstType CharTy)"

definition char_ptr_ptr :: QualType where
  "char_ptr_ptr = getPointerType char_ptr"

definition const_char_ptr_const_ptr :: QualType where
  "const_char_ptr_const_ptr = getPointerType (getConstType const_char_ptr)"

text \<open>A variable of a given type, an integer literal (the literal \<^verbatim>\<open>0\<close> is a null
  pointer constant), the macro \<^verbatim>\<open>NULL\<close> and a string literal.\<close>

definition variable_of :: "QualType \<Rightarrow> Expr" where
  "variable_of t =
     \<lparr>getType = t, isNullPointerConstant = False, isIntegerConstantExpr = None,
      asStringLiteral = None\<rparr>"



definition string_literal :: "string \<Rightarrow> Expr" where
  "string_literal s =
     \<lparr>getType = getPointerType CharTy, isNullPointerConstant = False,
      isIntegerConstantExpr = None, asStringLiteral = Some s\<rparr>"

definition start :: "string \<Rightarrow> Expr list \<Rightarrow> check_state" where
  "start s args = \<lparr>format_str = s, args_begin = args, diagnostics = []\<rparr>"

lemmas type_defs = char_ptr_def const_char_ptr_def char_ptr_ptr_def
  const_char_ptr_const_ptr_def getPointerType_def getConstType_def builtin_def
  const_quals_def no_quals_def


section \<open>Properties of the type comparison\<close>














text \<open>
  A pointee whose qualifier sits behind a typedef, \<^verbatim>\<open>typedef const char cchar\<close>:
  unqualifying \<^verbatim>\<open>volatile cchar\<close> gives \<^verbatim>\<open>char\<close>, so an actual
  \<^verbatim>\<open>volatile cchar *\<close> does not match an expected \<^verbatim>\<open>cchar *\<close> inbound, while an
  actual \<^verbatim>\<open>cchar *\<close> matches an expected \<^verbatim>\<open>char *\<close>.
\<close>

lemma compare_types_typedef_pointee:
  "getUnqualifiedType (QualType (Qualifiers False True False) (getTypePtr cchar)) = CharTy"
  "\<not> compare_types (getPointerType (QualType (Qualifiers False True False) (getTypePtr cchar)))
       (getPointerType cchar) {}"
  "compare_types (getPointerType cchar) char_ptr {}"
  by code_simp+




section \<open>Properties of the argument consumer\<close>



lemma consume_no_args:
  "CHECK_FLAG_CONSUME_ARGS \<notin> flags \<Longrightarrow> consume_variadic_argument e flags st = (True, st)"
  by (simp add: consume_variadic_argument_def)

lemma args_begin_emit_error [simp]: "args_begin (emit_error m l st) = args_begin st"
  by (simp add: emit_error_def)

lemma args_begin_advance [simp]: "args_begin (advance n st) = args_begin st"
  by (simp add: advance_def)

lemma consume_cursor:
  "args_begin (snd (consume_variadic_argument e flags st)) =
     (if fst (consume_variadic_argument e flags st) \<and> CHECK_FLAG_CONSUME_ARGS \<in> flags
      then tl (args_begin st) else args_begin st)"
  by (simp add: consume_variadic_argument_def Let_def split: list.splits)

lemma consume_cursor_nonempty:
  "fst (consume_variadic_argument e flags st) \<Longrightarrow> CHECK_FLAG_CONSUME_ARGS \<in> flags \<Longrightarrow>
   args_begin st \<noteq> []"
  by (auto simp: consume_variadic_argument_def Let_def split: list.splits)







text \<open>
  C10: one call of the consumer moves the argument cursor by exactly one position when
  it succeeds with \<^verbatim>\<open>consumeArguments\<close> set, and leaves it where it was in every
  other case: when it fails, for whatever reason, and when \<^verbatim>\<open>consumeArguments\<close> is
  unset.
\<close>

theorem consume_cursor_atomic:
  assumes "\<not> dereferences_null flags e"
      and "consume_variadic_argument e flags st = (ok, st')"
  shows "(ok \<and> CHECK_FLAG_CONSUME_ARGS \<in> flags \<longrightarrow>
            args_begin st \<noteq> [] \<and> args_begin st' = tl (args_begin st)) \<and>
         (\<not> (ok \<and> CHECK_FLAG_CONSUME_ARGS \<in> flags) \<longrightarrow> args_begin st' = args_begin st)"
  using consume_cursor[of e flags st] consume_cursor_nonempty[of e flags st] assms(2)
  by auto

theorem consume_cursor_atomic_witness:
  "args_begin (snd (consume_variadic_argument IntTy {CHECK_FLAG_CONSUME_ARGS}
      (start [] [variable_of IntTy, variable_of DoubleTy]))) = [variable_of DoubleTy] \<and>
   args_begin (snd (consume_variadic_argument IntTy {CHECK_FLAG_CONSUME_ARGS}
      (start [] [variable_of DoubleTy, variable_of IntTy]))) =
     [variable_of DoubleTy, variable_of IntTy] \<and>
   args_begin (snd (consume_variadic_argument IntTy {}
      (start [] [variable_of IntTy, variable_of DoubleTy]))) =
     [variable_of IntTy, variable_of DoubleTy]"
proof -
  have d: "\<not> dereferences_null flags IntTy" for flags
    by (simp add: dereferences_null_def forced_type_def isPointerType_def builtin_def
          dyn_cast_PointerType_def find_pointer_type_by_name_def getPointerType_def)
  have r1: "consume_variadic_argument IntTy {CHECK_FLAG_CONSUME_ARGS}
      (start [] [variable_of IntTy, variable_of DoubleTy]) =
      (True, start [] [variable_of DoubleTy])"
    by code_simp
  have r2: "fst (consume_variadic_argument IntTy {CHECK_FLAG_CONSUME_ARGS}
      (start [] [variable_of DoubleTy, variable_of IntTy])) = False"
    by code_simp
  have r3: "fst (consume_variadic_argument IntTy {}
      (start [] [variable_of IntTy, variable_of DoubleTy])) = True"
    by code_simp
  show ?thesis
    using consume_cursor_atomic[OF d r1]
      consume_cursor_atomic[OF d surjective_pairing,
        of "{CHECK_FLAG_CONSUME_ARGS}" "start [] [variable_of DoubleTy, variable_of IntTy]"]
      consume_cursor_atomic[OF d surjective_pairing,
        of "{}" "start [] [variable_of IntTy, variable_of DoubleTy]"]
    by (simp add: r1[unfolded start_def] r2[unfolded start_def] r3[unfolded start_def]
          start_def)
qed

declare check_basic_type_string.simps [simp del] check_type_string.simps [simp del]
  check_type_tuple.simps [simp del] check_basic_format_string.simps [simp del]
  check_format_string.simps [simp del] check_format_tuple.simps [simp del]

lemmas parser_induct = check_basic_type_string_check_type_string_check_type_tuple_check_basic_format_string_check_format_string_check_format_tuple.induct

section \<open>What every parser leaves behind\<close>

text \<open>
  Four facts hold of every parser call. A successful call emits no diagnostic; a failing
  call emits exactly one, the parse being abandoned at the first error; without
  \<^verbatim>\<open>consumeArguments\<close> the argument cursor stays where it was; and the cursor only
  ever moves forward.
\<close>

definition parser_inv :: "flags \<Rightarrow> check_state \<Rightarrow> bool \<times> check_state \<Rightarrow> bool" where
  "parser_inv flags st r =
     ((fst r \<longrightarrow> diagnostics (snd r) = diagnostics st) \<and>
      (\<not> fst r \<longrightarrow> (\<exists>d. diagnostics (snd r) = diagnostics st @ [d])) \<and>
      (CHECK_FLAG_CONSUME_ARGS \<notin> flags \<longrightarrow> args_begin (snd r) = args_begin st) \<and>
      (\<exists>k. args_begin (snd r) = drop k (args_begin st)))"

lemma diagnostics_advance [simp]: "diagnostics (advance n st) = diagnostics st"
  by (simp add: advance_def)

lemma diagnostics_emit_error [simp]:
  "diagnostics (emit_error m l st) = diagnostics st @ [Error m l]"
  by (simp add: emit_error_def)

lemma inv_consume:
  assumes "CHECK_FLAG_CONSUME_ARGS \<notin> flags \<Longrightarrow> CHECK_FLAG_CONSUME_ARGS \<notin> flags'"
      and "diagnostics st1 = diagnostics st" and "args_begin st1 = args_begin st"
  shows "parser_inv flags st (consume_variadic_argument e flags' st1)"
proof -
  have "\<exists>k. tl (args_begin st) = drop k (args_begin st)"
    by (rule exI[of _ 1]) (simp add: drop_Suc)
  moreover have "\<exists>k. args_begin st = drop k (args_begin st)"
    by (rule exI[of _ 0]) simp
  ultimately show ?thesis
    using assms
    by (auto simp: parser_inv_def consume_variadic_argument_def Let_def split: list.splits)
qed

lemma inv_error:
  assumes "diagnostics st1 = diagnostics st"
      and "\<exists>k. args_begin st1 = drop k (args_begin st)"
      and "CHECK_FLAG_CONSUME_ARGS \<notin> flags \<Longrightarrow> args_begin st1 = args_begin st"
  shows "parser_inv flags st (False, emit_error m l st1)"
  using assms by (auto simp: parser_inv_def)

lemma inv_callee:
  assumes "parser_inv flags' st1 r"
      and "CHECK_FLAG_CONSUME_ARGS \<notin> flags \<Longrightarrow> CHECK_FLAG_CONSUME_ARGS \<notin> flags'"
      and "diagnostics st1 = diagnostics st" and "args_begin st1 = args_begin st"
  shows "parser_inv flags st r"
  using assms by (auto simp: parser_inv_def)

lemma inv_seq:
  assumes first: "parser_inv flags st r"
      and rest: "\<And>st1. r = (True, st1) \<Longrightarrow> parser_inv flags st1 (k st1)"
  shows "parser_inv flags st (case r of (ok, st1) \<Rightarrow> if \<not> ok then (False, st1) else k st1)"
proof (cases r)
  case (Pair ok st1)
  show ?thesis
  proof (cases ok)
    case False
    with first Pair show ?thesis by (simp add: parser_inv_def)
  next
    case True
    with rest[of st1] Pair have k: "parser_inv flags st1 (k st1)" by simp
    from first Pair True have d: "diagnostics st1 = diagnostics st"
      and a: "CHECK_FLAG_CONSUME_ARGS \<notin> flags \<longrightarrow> args_begin st1 = args_begin st"
      by (simp_all add: parser_inv_def)
    from first Pair obtain j where j: "args_begin st1 = drop j (args_begin st)"
      by (auto simp: parser_inv_def)
    from k obtain i where i: "args_begin (snd (k st1)) = drop i (args_begin st1)"
      by (auto simp: parser_inv_def)
    have "args_begin (snd (k st1)) = drop (i + j) (args_begin st)"
      using i j by simp
    then have "\<exists>n. args_begin (snd (k st1)) = drop n (args_begin st)" ..
    with k d a Pair True show ?thesis
      by (simp add: parser_inv_def)
  qed
qed

lemma inv_closing:
  assumes "parser_inv flags st (True, st1)"
  shows "parser_inv flags st
           (if peek (format_str st1) \<noteq> c then (False, emit_error m l st1)
            else (True, advance 1 st1))"
  using assms by (auto simp: parser_inv_def)

lemma inv_dict_closing:
  assumes "parser_inv flags st (True, st1)"
  shows "parser_inv flags st
           (if peek (format_str st1) = CHR 0x00 then (False, emit_error m1 l st1)
            else if peek (format_str st1) \<noteq> c then (False, emit_error m2 l st1)
            else (True, advance 1 st1))"
  using assms by (auto simp: parser_inv_def)

lemma inv_refl: "parser_inv flags st (True, st)"
  by (auto simp: parser_inv_def intro: exI[of _ 0])

lemma inv_True_D:
  "parser_inv flags st (True, st1) \<Longrightarrow> parser_inv flags st1 r \<Longrightarrow> parser_inv flags st r"
  using inv_seq[of flags st "(True, st1)" "\<lambda>_. r"] by simp


lemma parser_invariant:
  shows "parser_inv flags st (check_basic_type_string flags st)"
    and "parser_inv flags st (check_type_string flags st)"
    and "parser_inv flags st (check_type_tuple flags st)"
    and "parser_inv flags st (check_basic_format_string flags st)"
    and "parser_inv flags st (check_format_string flags st)"
    and "parser_inv flags st (check_format_tuple flags st)"
proof (induct rule: parser_induct)
  case (1 flags st)
  show ?case
    unfolding check_basic_type_string.simps[of flags st]
    by (cases "basic_type (peek (format_str st))")
       (simp_all add: Let_def inv_consume inv_error exI[of _ 0])
next
  case (2 flags st)
  note unf = check_type_string.simps[of flags st]
  let ?c = "peek (format_str st)"
  have direct: "parser_inv flags st (consume_variadic_argument e flags (advance n st))" for e n
    by (rule inv_consume) simp_all
  consider (v) "?c = CHR ''v''" | (a) "?c = CHR ''a''" | (m) "?c = CHR ''m''"
    | (tuple) "?c = CHR ''(''" | (r) "?c = CHR ''r''" | (dict) "?c = CHR ''{''"
    | (star) "?c = CHR ''*''"
    | (other) "?c \<noteq> CHR ''v''" "?c \<noteq> CHR ''a''" "?c \<noteq> CHR ''m''" "?c \<noteq> CHR ''(''"
        "?c \<noteq> CHR ''r''" "?c \<noteq> CHR ''{''" "?c \<noteq> CHR ''*''"
    by blast
  then show ?case
  proof cases
    case v
    then show ?thesis unfolding unf by (simp add: direct)
  next
    case a
    let ?flags1 = "insert CHECK_FLAG_ALLOW_MAYBE flags"
    have ih: "parser_inv (?flags1 - {CHECK_FLAG_CONSUME_ARGS}) (advance 1 st)
        (check_type_string (?flags1 - {CHECK_FLAG_CONSUME_ARGS}) (advance 1 st))"
      by (rule 2(1)) (simp_all add: a)
    have elem: "parser_inv flags (advance 1 st)
        (check_type_string (?flags1 - {CHECK_FLAG_CONSUME_ARGS}) (advance 1 st))"
      by (rule inv_callee[OF ih]) simp_all
    have "parser_inv flags (advance 1 st)
        (case check_type_string (?flags1 - {CHECK_FLAG_CONSUME_ARGS}) (advance 1 st) of
           (ok, st2) \<Rightarrow>
             if \<not> ok then (False, st2) else consume_variadic_argument e ?flags1 st2)" for e
      by (rule inv_seq[OF elem]) (rule inv_consume, simp_all)
    then have "parser_inv flags st
        (case check_type_string (?flags1 - {CHECK_FLAG_CONSUME_ARGS}) (advance 1 st) of
           (ok, st2) \<Rightarrow>
             if \<not> ok then (False, st2) else consume_variadic_argument e ?flags1 st2)" for e
      by (rule inv_callee) simp_all
    then show ?thesis unfolding unf Let_def by (simp add: a)
  next
    case m
    have ih: "parser_inv (insert CHECK_FLAG_ALLOW_MAYBE flags) (advance 1 st)
        (check_type_string (insert CHECK_FLAG_ALLOW_MAYBE flags) (advance 1 st))"
      by (rule 2(2)) (simp_all add: m)
    have "parser_inv flags st
        (check_type_string (insert CHECK_FLAG_ALLOW_MAYBE flags) (advance 1 st))"
      by (rule inv_callee[OF ih]) simp_all
    then show ?thesis unfolding unf Let_def by (simp add: m)
  next
    case tuple
    have ih: "parser_inv flags (advance 1 st) (check_type_tuple flags (advance 1 st))"
      by (rule 2(3)) (simp_all add: tuple)
    have "parser_inv flags (advance 1 st)
        (case check_type_tuple flags (advance 1 st) of (ok, st1) \<Rightarrow>
           if \<not> ok then (False, st1)
           else if peek (format_str st1) \<noteq> CHR '')''
           then (False, emit_error TypeTupleNotClosed FormatArgLoc st1)
           else (True, advance 1 st1))"
      by (rule inv_seq[OF ih]) (rule inv_closing[OF inv_refl])
    then have "parser_inv flags st
        (case check_type_tuple flags (advance 1 st) of (ok, st1) \<Rightarrow>
           if \<not> ok then (False, st1)
           else if peek (format_str st1) \<noteq> CHR '')''
           then (False, emit_error TypeTupleNotClosed FormatArgLoc st1)
           else (True, advance 1 st1))"
      by (rule inv_callee) simp_all
    then show ?thesis unfolding unf Let_def by (simp add: tuple)
  next
    case r
    then show ?thesis unfolding unf by (simp add: direct)
  next
    case dict
    let ?st1 = "advance 1 st"
    show ?thesis
    proof (cases "peek (format_str ?st1) = CHR ''}''")
      case True
      have "parser_inv flags st (False, emit_error TypeDictNotTwoElements FormatArgLoc ?st1)"
        by (rule inv_error) (simp_all add: exI[of _ 0])
      with True show ?thesis unfolding unf Let_def by (simp add: dict)
    next
      case False
      then have nb1: "peek (drop (Suc 0) (format_str st)) \<noteq> CHR ''}''" by simp
      have key: "parser_inv flags ?st1 (check_basic_type_string flags ?st1)"
        by (rule 2(4)) (simp_all add: dict nb1)
      have val: "parser_inv flags st2
          (if peek (format_str st2) = CHR ''}''
           then (False, emit_error TypeDictNotTwoElements FormatArgLoc st2)
           else case check_type_string flags st2 of (ok3, st3) \<Rightarrow>
             if \<not> ok3 then (False, st3)
             else if peek (format_str st3) = CHR 0x00
             then (False, emit_error TypeDictNotClosed FormatArgLoc st3)
             else if peek (format_str st3) \<noteq> CHR ''}''
             then (False, emit_error TypeDictMoreThanTwoElements FormatArgLoc st3)
             else (True, advance 1 st3))"
        if r: "check_basic_type_string flags ?st1 = (True, st2)" for st2
      proof (cases "peek (format_str st2) = CHR ''}''")
        case True
        have "parser_inv flags st2 (False, emit_error TypeDictNotTwoElements FormatArgLoc st2)"
          by (rule inv_error) (simp_all add: exI[of _ 0])
        with True show ?thesis by simp
      next
        case nb2: False
        have ih: "parser_inv flags st2 (check_type_string flags st2)"
          by (rule 2(5)[where x = "peek (format_str st)" and xa = "advance 1 st"
                and xb = "check_basic_type_string flags (advance 1 st)" and xc = True])
             (use dict nb1 r nb2 in simp_all)
        have "parser_inv flags st2
          (case check_type_string flags st2 of (ok3, st3) \<Rightarrow>
             if \<not> ok3 then (False, st3)
             else if peek (format_str st3) = CHR 0x00
             then (False, emit_error TypeDictNotClosed FormatArgLoc st3)
             else if peek (format_str st3) \<noteq> CHR ''}''
             then (False, emit_error TypeDictMoreThanTwoElements FormatArgLoc st3)
             else (True, advance 1 st3))"
          by (rule inv_seq[OF ih]) (rule inv_dict_closing[OF inv_refl])
        with nb2 show ?thesis by simp
      qed
      have "parser_inv flags ?st1
          (case check_basic_type_string flags ?st1 of (ok2, st2) \<Rightarrow>
             if \<not> ok2 then (False, st2)
             else if peek (format_str st2) = CHR ''}''
             then (False, emit_error TypeDictNotTwoElements FormatArgLoc st2)
             else case check_type_string flags st2 of (ok3, st3) \<Rightarrow>
               if \<not> ok3 then (False, st3)
               else if peek (format_str st3) = CHR 0x00
               then (False, emit_error TypeDictNotClosed FormatArgLoc st3)
               else if peek (format_str st3) \<noteq> CHR ''}''
               then (False, emit_error TypeDictMoreThanTwoElements FormatArgLoc st3)
               else (True, advance 1 st3))"
        by (rule inv_seq[OF key]) (rule val)
      then have "parser_inv flags st
          (case check_basic_type_string flags ?st1 of (ok2, st2) \<Rightarrow>
             if \<not> ok2 then (False, st2)
             else if peek (format_str st2) = CHR ''}''
             then (False, emit_error TypeDictNotTwoElements FormatArgLoc st2)
             else case check_type_string flags st2 of (ok3, st3) \<Rightarrow>
               if \<not> ok3 then (False, st3)
               else if peek (format_str st3) = CHR 0x00
               then (False, emit_error TypeDictNotClosed FormatArgLoc st3)
               else if peek (format_str st3) \<noteq> CHR ''}''
               then (False, emit_error TypeDictMoreThanTwoElements FormatArgLoc st3)
               else (True, advance 1 st3))"
        by (rule inv_callee) simp_all
      with False show ?thesis unfolding unf Let_def by (simp add: dict)
    qed
  next
    case star
    then show ?thesis unfolding unf by (simp add: direct)
  next
    case other
    have ih: "parser_inv flags st (check_basic_type_string flags st)"
      by (rule 2(6)[OF refl other])
    show ?thesis unfolding unf Let_def using ih other by simp
  qed
next
  case (3 flags st)
  note unf = check_type_tuple.simps[of flags st]
  show ?case
  proof (cases "peek (format_str st) \<noteq> CHR '')'' \<and> peek (format_str st) \<noteq> CHR 0x00")
    case True
    have ih: "parser_inv flags st (check_type_string flags st)"
      by (rule 3(1)) (rule True)
    have loop: "parser_inv flags st1 (check_type_tuple flags st1)"
      if "check_type_string flags st = (True, st1)" for st1
      by (rule 3(2)[where x = "check_type_string flags st" and xa = True])
         (use True that in simp_all)
    have "parser_inv flags st
        (case check_type_string flags st of (ok, st1) \<Rightarrow>
           if \<not> ok then (False, st1) else check_type_tuple flags st1)"
      by (rule inv_seq[OF ih]) (rule loop)
    with True show ?thesis unfolding unf by simp
  next
    case False
    then show ?thesis unfolding unf by (auto simp: inv_refl)
  qed
next
  case (4 flags st)
  note unf = check_basic_format_string.simps[of flags st]
  let ?c = "peek (format_str st)"
  have direct: "parser_inv flags st (consume_variadic_argument e flags (advance n st))" for e n
    by (rule inv_consume) simp_all
  consider (at) "?c = CHR ''@''" | (qm) "?c = CHR ''?''" | (amp) "?c = CHR ''&''"
    | (conv) "?c = CHR ''^''"
    | (other) "?c \<noteq> CHR ''@''" "?c \<noteq> CHR ''?''" "?c \<noteq> CHR ''&''" "?c \<noteq> CHR ''^''"
    by blast
  then show ?case
  proof cases
    case at
    have ih: "parser_inv (insert CHECK_FLAG_FORCE_GVARIANT flags) (advance 1 st)
        (check_basic_type_string (insert CHECK_FLAG_FORCE_GVARIANT flags) (advance 1 st))"
      by (rule 4(1)[OF refl at])
    have "parser_inv flags st
        (check_basic_type_string (insert CHECK_FLAG_FORCE_GVARIANT flags) (advance 1 st))"
      by (rule inv_callee[OF ih]) simp_all
    then show ?thesis unfolding unf Let_def by (simp add: at)
  next
    case qm
    then show ?thesis unfolding unf by (simp add: direct)
  next
    case amp
    have ih: "parser_inv (insert CHECK_FLAG_REQUIRE_CONST flags) (advance 1 st)
        (check_basic_type_string (insert CHECK_FLAG_REQUIRE_CONST flags) (advance 1 st))"
      by (rule 4(2)[OF refl _ _ amp]) (simp_all add: amp)
    have "parser_inv flags st
        (check_basic_type_string (insert CHECK_FLAG_REQUIRE_CONST flags) (advance 1 st))"
      by (rule inv_callee[OF ih]) simp_all
    then show ?thesis unfolding unf Let_def by (simp add: amp)
  next
    case conv
    show ?thesis
    proof (cases "convenience_type (format_str (advance 1 st))")
      case None
      have "parser_inv flags st (False, emit_error UnknownConvenience FormatArgLoc (advance 1 st))"
        by (rule inv_error) (simp_all add: exI[of _ 0])
      with None show ?thesis unfolding unf Let_def by (simp add: conv)
    next
      case (Some p)
      have "parser_inv flags st
          (consume_variadic_argument (fst p) flags (advance (snd p) (advance 1 st)))"
        by (rule inv_consume) simp_all
      with Some show ?thesis unfolding unf Let_def
        by (cases p) (simp add: conv)
    qed
  next
    case other
    have ih: "parser_inv flags st (check_basic_type_string flags st)"
      by (rule 4(3)[OF refl other])
    show ?thesis unfolding unf Let_def using ih other by simp
  qed
next
  case (5 flags st)
  note unf = check_format_string.simps[of flags st]
  let ?c = "peek (format_str st)"
  have direct: "parser_inv flags st (consume_variadic_argument e flags (advance n st))" for e n
    by (rule inv_consume) simp_all
  consider (at) "?c = CHR ''@''" | (m) "?c = CHR ''m''"
    | (variant) "?c = CHR ''*'' \<or> ?c = CHR ''?'' \<or> ?c = CHR ''r''"
    | (tuple) "?c = CHR ''(''" | (dict) "?c = CHR ''{''" | (amp) "?c = CHR ''&''"
    | (conv) "?c = CHR ''^''"
    | (other) "?c \<noteq> CHR ''@''" "?c \<noteq> CHR ''m''"
        "\<not> (?c = CHR ''*'' \<or> ?c = CHR ''?'' \<or> ?c = CHR ''r'')" "?c \<noteq> CHR ''(''"
        "?c \<noteq> CHR ''{''" "?c \<noteq> CHR ''&''" "?c \<noteq> CHR ''^''"
    by blast
  then show ?case
  proof cases
    case at
    have ih: "parser_inv (insert CHECK_FLAG_FORCE_GVARIANT flags) (advance 1 st)
        (check_type_string (insert CHECK_FLAG_FORCE_GVARIANT flags) (advance 1 st))"
      by (rule 5(1)[OF refl at])
    have "parser_inv flags st
        (check_type_string (insert CHECK_FLAG_FORCE_GVARIANT flags) (advance 1 st))"
      by (rule inv_callee[OF ih]) simp_all
    then show ?thesis unfolding unf Let_def by (simp add: at)
  next
    case m
    have ih: "parser_inv (insert CHECK_FLAG_ALLOW_MAYBE flags) (advance 1 st)
        (check_format_string (insert CHECK_FLAG_ALLOW_MAYBE flags) (advance 1 st))"
      by (rule 5(2)[OF refl _ m]) (simp add: m)
    have "parser_inv flags st
        (check_format_string (insert CHECK_FLAG_ALLOW_MAYBE flags) (advance 1 st))"
      by (rule inv_callee[OF ih]) simp_all
    then show ?thesis unfolding unf Let_def by (simp add: m)
  next
    case variant
    then show ?thesis unfolding unf Let_def by (auto simp: direct)
  next
    case tuple
    have ih: "parser_inv flags (advance 1 st) (check_format_tuple flags (advance 1 st))"
      by (rule 5(3)[OF refl _ _ _ tuple]) (simp_all add: tuple)
    have "parser_inv flags (advance 1 st)
        (case check_format_tuple flags (advance 1 st) of (ok, st1) \<Rightarrow>
           if \<not> ok then (False, st1)
           else if peek (format_str st1) \<noteq> CHR '')''
           then (False, emit_error FormatTupleNotClosed FormatArgLoc st1)
           else (True, advance 1 st1))"
      by (rule inv_seq[OF ih]) (rule inv_closing[OF inv_refl])
    then have "parser_inv flags st
        (case check_format_tuple flags (advance 1 st) of (ok, st1) \<Rightarrow>
           if \<not> ok then (False, st1)
           else if peek (format_str st1) \<noteq> CHR '')''
           then (False, emit_error FormatTupleNotClosed FormatArgLoc st1)
           else (True, advance 1 st1))"
      by (rule inv_callee) simp_all
    then show ?thesis unfolding unf Let_def by (simp add: tuple)
  next
    case dict
    let ?st1 = "advance 1 st"
    show ?thesis
    proof (cases "peek (format_str ?st1) = CHR ''}''")
      case True
      have "parser_inv flags st (False, emit_error FormatDictNotTwoElements FormatArgLoc ?st1)"
        by (rule inv_error) (simp_all add: exI[of _ 0])
      with True show ?thesis unfolding unf Let_def by (simp add: dict)
    next
      case False
      then have nb1: "peek (drop (Suc 0) (format_str st)) \<noteq> CHR ''}''" by simp
      have key: "parser_inv flags ?st1 (check_basic_format_string flags ?st1)"
        by (rule 5(4)[OF refl _ _ _ _ dict refl]) (simp_all add: dict nb1)
      have val: "parser_inv flags st2
          (if peek (format_str st2) = CHR ''}''
           then (False, emit_error FormatDictNotTwoElements FormatArgLoc st2)
           else case check_format_string flags st2 of (ok3, st3) \<Rightarrow>
             if \<not> ok3 then (False, st3)
             else if peek (format_str st3) = CHR 0x00
             then (False, emit_error FormatDictNotClosed FormatArgLoc st3)
             else if peek (format_str st3) \<noteq> CHR ''}''
             then (False, emit_error FormatDictMoreThanTwoElements FormatArgLoc st3)
             else (True, advance 1 st3))"
        if r: "check_basic_format_string flags ?st1 = (True, st2)" for st2
      proof (cases "peek (format_str st2) = CHR ''}''")
        case True
        have "parser_inv flags st2 (False, emit_error FormatDictNotTwoElements FormatArgLoc st2)"
          by (rule inv_error) (simp_all add: exI[of _ 0])
        with True show ?thesis by simp
      next
        case nb2: False
        have ih: "parser_inv flags st2 (check_format_string flags st2)"
          by (rule 5(5)[where x = "peek (format_str st)" and xa = "advance 1 st"
                and xb = "check_basic_format_string flags (advance 1 st)" and xc = True])
             (use dict nb1 r nb2 in simp_all)
        have "parser_inv flags st2
          (case check_format_string flags st2 of (ok3, st3) \<Rightarrow>
             if \<not> ok3 then (False, st3)
             else if peek (format_str st3) = CHR 0x00
             then (False, emit_error FormatDictNotClosed FormatArgLoc st3)
             else if peek (format_str st3) \<noteq> CHR ''}''
             then (False, emit_error FormatDictMoreThanTwoElements FormatArgLoc st3)
             else (True, advance 1 st3))"
          by (rule inv_seq[OF ih]) (rule inv_dict_closing[OF inv_refl])
        with nb2 show ?thesis by simp
      qed
      have "parser_inv flags ?st1
          (case check_basic_format_string flags ?st1 of (ok2, st2) \<Rightarrow>
             if \<not> ok2 then (False, st2)
             else if peek (format_str st2) = CHR ''}''
             then (False, emit_error FormatDictNotTwoElements FormatArgLoc st2)
             else case check_format_string flags st2 of (ok3, st3) \<Rightarrow>
               if \<not> ok3 then (False, st3)
               else if peek (format_str st3) = CHR 0x00
               then (False, emit_error FormatDictNotClosed FormatArgLoc st3)
               else if peek (format_str st3) \<noteq> CHR ''}''
               then (False, emit_error FormatDictMoreThanTwoElements FormatArgLoc st3)
               else (True, advance 1 st3))"
        by (rule inv_seq[OF key]) (rule val)
      then have "parser_inv flags st
          (case check_basic_format_string flags ?st1 of (ok2, st2) \<Rightarrow>
             if \<not> ok2 then (False, st2)
             else if peek (format_str st2) = CHR ''}''
             then (False, emit_error FormatDictNotTwoElements FormatArgLoc st2)
             else case check_format_string flags st2 of (ok3, st3) \<Rightarrow>
               if \<not> ok3 then (False, st3)
               else if peek (format_str st3) = CHR 0x00
               then (False, emit_error FormatDictNotClosed FormatArgLoc st3)
               else if peek (format_str st3) \<noteq> CHR ''}''
               then (False, emit_error FormatDictMoreThanTwoElements FormatArgLoc st3)
               else (True, advance 1 st3))"
        by (rule inv_callee) simp_all
      with False show ?thesis unfolding unf Let_def by (simp add: dict)
    qed
  next
    case amp
    have ih: "parser_inv (insert CHECK_FLAG_REQUIRE_CONST flags) (advance 1 st)
        (check_type_string (insert CHECK_FLAG_REQUIRE_CONST flags) (advance 1 st))"
      by (rule 5(6)[OF refl _ _ _ _ _ amp]) (simp_all add: amp)
    have "parser_inv flags st
        (check_type_string (insert CHECK_FLAG_REQUIRE_CONST flags) (advance 1 st))"
      by (rule inv_callee[OF ih]) simp_all
    then show ?thesis unfolding unf Let_def by (simp add: amp)
  next
    case conv
    have ih: "parser_inv flags st (check_basic_format_string flags st)"
      by (rule 5(7)[OF refl _ _ _ _ _ _ conv]) (simp_all add: conv)
    show ?thesis unfolding unf Let_def using ih by (simp add: conv)
  next
    case other
    have ih: "parser_inv flags st (check_type_string flags st)"
      by (rule 5(8)[OF refl other])
    show ?thesis unfolding unf Let_def using ih other by simp
  qed
next
  case (6 flags st)
  note unf = check_format_tuple.simps[of flags st]
  show ?case
  proof (cases "peek (format_str st) \<noteq> CHR '')'' \<and> peek (format_str st) \<noteq> CHR 0x00")
    case True
    have ih: "parser_inv flags st (check_format_string flags st)"
      by (rule 6(1)) (rule True)
    have loop: "parser_inv flags st1 (check_format_tuple flags st1)"
      if "check_format_string flags st = (True, st1)" for st1
      by (rule 6(2)[where x = "check_format_string flags st" and xa = True])
         (use True that in simp_all)
    have "parser_inv flags st
        (case check_format_string flags st of (ok, st1) \<Rightarrow>
           if \<not> ok then (False, st1) else check_format_tuple flags st1)"
      by (rule inv_seq[OF ih]) (rule loop)
    with True show ?thesis unfolding unf by simp
  next
    case False
    then show ?thesis unfolding unf by (auto simp: inv_refl)
  qed
qed


section \<open>The productions, one by one\<close>

lemma check_basic_type_string_resolved:
  assumes "basic_type (peek (format_str st)) = Some t"
  shows "check_basic_type_string flags st =
           consume_variadic_argument (promoted_type flags (peek (format_str st)) t) flags
             (advance 1 st)"
  unfolding check_basic_type_string.simps[of flags st] Let_def using assms by simp

lemma check_basic_type_string_unknown:
  assumes "basic_type (peek (format_str st)) = None"
  shows "check_basic_type_string flags st =
           (False, emit_error (NotBasicType [peek (format_str st)]) FormatArgLoc st)"
  unfolding check_basic_type_string.simps[of flags st] Let_def using assms by simp

lemma check_type_string_array:
  assumes "peek (format_str st) = CHR ''a''"
  shows "check_type_string flags st =
           (case check_type_string
                   (insert CHECK_FLAG_ALLOW_MAYBE flags - {CHECK_FLAG_CONSUME_ARGS})
                   (advance 1 st) of
              (ok, st2) \<Rightarrow>
                if \<not> ok then (False, st2)
                else consume_variadic_argument
                       (if CHECK_FLAG_DIRECTION_OUT \<in> flags
                        then find_pointer_type_by_name ''GVariantIter''
                        else find_pointer_type_by_name ''GVariantBuilder'')
                       (insert CHECK_FLAG_ALLOW_MAYBE flags) st2)"
  unfolding check_type_string.simps[of flags st] Let_def using assms by simp

lemma check_type_string_dict:
  assumes "peek (format_str st) = CHR ''{''"
  shows "check_type_string flags st =
           (if peek (format_str (advance 1 st)) = CHR ''}''
            then (False, emit_error TypeDictNotTwoElements FormatArgLoc (advance 1 st))
            else case check_basic_type_string flags (advance 1 st) of
              (ok2, st2) \<Rightarrow>
                if \<not> ok2 then (False, st2)
                else if peek (format_str st2) = CHR ''}''
                then (False, emit_error TypeDictNotTwoElements FormatArgLoc st2)
                else case check_type_string flags st2 of
                  (ok3, st3) \<Rightarrow>
                    if \<not> ok3 then (False, st3)
                    else if peek (format_str st3) = CHR 0x00
                    then (False, emit_error TypeDictNotClosed FormatArgLoc st3)
                    else if peek (format_str st3) \<noteq> CHR ''}''
                    then (False, emit_error TypeDictMoreThanTwoElements FormatArgLoc st3)
                    else (True, advance 1 st3))"
  unfolding check_type_string.simps[of flags st] Let_def using assms by simp

lemma check_format_string_dict:
  assumes "peek (format_str st) = CHR ''{''"
  shows "check_format_string flags st =
           (if peek (format_str (advance 1 st)) = CHR ''}''
            then (False, emit_error FormatDictNotTwoElements FormatArgLoc (advance 1 st))
            else case check_basic_format_string flags (advance 1 st) of
              (ok2, st2) \<Rightarrow>
                if \<not> ok2 then (False, st2)
                else if peek (format_str st2) = CHR ''}''
                then (False, emit_error FormatDictNotTwoElements FormatArgLoc st2)
                else case check_format_string flags st2 of
                  (ok3, st3) \<Rightarrow>
                    if \<not> ok3 then (False, st3)
                    else if peek (format_str st3) = CHR 0x00
                    then (False, emit_error FormatDictNotClosed FormatArgLoc st3)
                    else if peek (format_str st3) \<noteq> CHR ''}''
                    then (False, emit_error FormatDictMoreThanTwoElements FormatArgLoc st3)
                    else (True, advance 1 st3))"
  unfolding check_format_string.simps[of flags st] Let_def using assms by simp




lemma basic_type_not_special:
  assumes "basic_type c = Some t"
  shows "c \<noteq> CHR ''v''" "c \<noteq> CHR ''a''" "c \<noteq> CHR ''m''" "c \<noteq> CHR ''(''" "c \<noteq> CHR ''r''"
    "c \<noteq> CHR ''{''" "c \<noteq> CHR ''*''" "c \<noteq> CHR ''@''" "c \<noteq> CHR ''&''" "c \<noteq> CHR ''^''"
  using assms by (auto simp: basic_type_def)

lemma basic_type_question: "basic_type (CHR ''?'') = Some (find_pointer_type_by_name ''GVariant'')"
  by (simp add: basic_type_def)

lemma promoted_type_question [simp]: "promoted_type flags (CHR ''?'') t = t"
  by (simp add: promoted_type_def)


lemma check_basic_format_string_basic:
  assumes "basic_type (peek (format_str st)) = Some t"
  shows "check_basic_format_string flags st =
           consume_variadic_argument (promoted_type flags (peek (format_str st)) t) flags
             (advance 1 st)"
proof (cases "peek (format_str st) = CHR ''?''")
  case True
  with assms have "t = find_pointer_type_by_name ''GVariant''"
    by (simp add: basic_type_question)
  with True show ?thesis
    unfolding check_basic_format_string.simps[of flags st] Let_def by simp
next
  case False
  have "check_basic_format_string flags st = check_basic_type_string flags st"
    unfolding check_basic_format_string.simps[of flags st] Let_def
    by (simp add: basic_type_not_special[OF assms] False)
  then show ?thesis by (simp add: check_basic_type_string_resolved[OF assms])
qed


lemma check_type_string_variant:
  assumes "peek (format_str st) = CHR ''v''"
  shows "check_type_string flags st =
           consume_variadic_argument (find_pointer_type_by_name ''GVariant'') flags (advance 1 st)"
  unfolding check_type_string.simps[of flags st] Let_def using assms by simp

lemma check_format_string_variant:
  assumes "peek (format_str st) = CHR ''v''"
  shows "check_format_string flags st =
           consume_variadic_argument (find_pointer_type_by_name ''GVariant'') flags (advance 1 st)"
  unfolding check_format_string.simps[of flags st] Let_def using assms
  by (simp add: check_type_string_variant)


subsection \<open>Arrays\<close>

lemma expected_type_for_array:
  assumes "CHECK_FLAG_REQUIRE_CONST \<notin> flags" and "CHECK_FLAG_FORCE_VALIST \<notin> flags"
  shows "expected_type_for (insert CHECK_FLAG_ALLOW_MAYBE flags)
           (if CHECK_FLAG_DIRECTION_OUT \<in> flags
            then find_pointer_type_by_name ''GVariantIter''
            else find_pointer_type_by_name ''GVariantBuilder'') =
         (if CHECK_FLAG_FORCE_GVARIANT \<in> flags
          then (if CHECK_FLAG_DIRECTION_OUT \<in> flags
                then getPointerType (find_pointer_type_by_name ''GVariant'')
                else find_pointer_type_by_name ''GVariant'')
          else (if CHECK_FLAG_DIRECTION_OUT \<in> flags
                then getPointerType (find_pointer_type_by_name ''GVariantIter'')
                else find_pointer_type_by_name ''GVariantBuilder''))"
  using assms by (simp add: expected_type_for_def forced_type_def Let_def)

lemma start_simps [simp]:
  "format_str (start s a) = s" "args_begin (start s a) = a" "diagnostics (start s a) = []"
  by (simp_all add: start_def)

text \<open>
  C7, as the spec has it: when the recursion on the element type succeeds, exactly one
  argument is consumed for the whole array, expected to be a \<^verbatim>\<open>GVariantIter*\<close> for
  outbound arguments and a \<^verbatim>\<open>GVariantBuilder*\<close> otherwise. It fails in three ways.
  For \<^verbatim>\<open>"ai"\<close> and an \<^verbatim>\<open>int\<close> argument the element type is accepted, yet the
  production fails and consumes nothing. The inner array of \<^verbatim>\<open>"aai"\<close> is parsed with
  \<^verbatim>\<open>consumeArguments\<close> cleared: its element type is accepted and it succeeds
  without consuming anything. And an outbound array refuses an argument of type
  \<^verbatim>\<open>GVariantIter*\<close>: the consumer adds a pointer level for outbound arguments and
  expects a \<^verbatim>\<open>GVariantIter**\<close>.
\<close>

theorem array_production_counterexample:
  "fst (check_type_string {CHECK_FLAG_ALLOW_MAYBE} (start ''i'' [variable_of IntTy])) \<and>
   check_type_string {CHECK_FLAG_CONSUME_ARGS} (start ''ai'' [variable_of IntTy]) =
     (False,
      emit_error (TypeMismatch (find_pointer_type_by_name ''GVariantBuilder'') IntTy)
        (ArgLoc (variable_of IntTy)) (start [] [variable_of IntTy])) \<and>
   check_type_string {CHECK_FLAG_ALLOW_MAYBE}
       (start ''ai'' [variable_of (find_pointer_type_by_name ''GVariantBuilder'')]) =
     (True, start [] [variable_of (find_pointer_type_by_name ''GVariantBuilder'')]) \<and>
   check_type_string {CHECK_FLAG_CONSUME_ARGS, CHECK_FLAG_DIRECTION_OUT}
       (start ''ai'' [variable_of (find_pointer_type_by_name ''GVariantIter'')]) =
     (False,
      emit_error
        (TypeMismatch (getPointerType (find_pointer_type_by_name ''GVariantIter''))
           (find_pointer_type_by_name ''GVariantIter''))
        (ArgLoc (variable_of (find_pointer_type_by_name ''GVariantIter'')))
        (start [] [variable_of (find_pointer_type_by_name ''GVariantIter'')]))"
  by code_simp

text \<open>
  C7, amended: in the array production of the type string grammar the element type is
  parsed with \<^verbatim>\<open>allowMaybeNull\<close> added and \<^verbatim>\<open>consumeArguments\<close> cleared, which
  leaves the argument cursor where it was. When the element type is refused, so is the
  array. When it is accepted, the consumer is called once for the whole array, with the
  flags of the production and \<^verbatim>\<open>allowMaybeNull\<close>, and is handed \<^verbatim>\<open>GVariantIter*\<close>
  for outbound arguments and \<^verbatim>\<open>GVariantBuilder*\<close> otherwise. The consumer adjusts that
  type as it does for every argument: unless a const pointee is required or a
  \<^verbatim>\<open>va_list\<close> forced, it expects \<^verbatim>\<open>GVariant*\<close> in place of either when a variant
  is forced, and one more pointer level for outbound arguments
  (\<^verbatim>\<open>GVariantIter**\<close>). A successful array production with \<^verbatim>\<open>consumeArguments\<close>
  set has consumed exactly one argument, and in every other case the cursor has not
  moved.
\<close>

theorem array_production:
  assumes "peek (format_str st) = CHR ''a''"
  shows "let element = check_type_string
                 (insert CHECK_FLAG_ALLOW_MAYBE flags - {CHECK_FLAG_CONSUME_ARGS}) (advance 1 st);
             whole = check_type_string flags st;
             expected_type = (if CHECK_FLAG_DIRECTION_OUT \<in> flags
                              then find_pointer_type_by_name ''GVariantIter''
                              else find_pointer_type_by_name ''GVariantBuilder'')
         in args_begin (snd element) = args_begin st \<and>
            whole =
              (if \<not> fst element then (False, snd element)
               else consume_variadic_argument expected_type
                      (insert CHECK_FLAG_ALLOW_MAYBE flags) (snd element)) \<and>
            (CHECK_FLAG_REQUIRE_CONST \<notin> flags \<and> CHECK_FLAG_FORCE_VALIST \<notin> flags \<longrightarrow>
               expected_type_for (insert CHECK_FLAG_ALLOW_MAYBE flags) expected_type =
                 (if CHECK_FLAG_FORCE_GVARIANT \<in> flags
                  then (if CHECK_FLAG_DIRECTION_OUT \<in> flags
                        then getPointerType (find_pointer_type_by_name ''GVariant'')
                        else find_pointer_type_by_name ''GVariant'')
                  else (if CHECK_FLAG_DIRECTION_OUT \<in> flags
                        then getPointerType (find_pointer_type_by_name ''GVariantIter'')
                        else find_pointer_type_by_name ''GVariantBuilder''))) \<and>
            (fst whole \<and> CHECK_FLAG_CONSUME_ARGS \<in> flags \<longrightarrow>
               args_begin st \<noteq> [] \<and> args_begin (snd whole) = tl (args_begin st)) \<and>
            (\<not> (fst whole \<and> CHECK_FLAG_CONSUME_ARGS \<in> flags) \<longrightarrow>
               args_begin (snd whole) = args_begin st)"
proof -
  let ?flags1 = "insert CHECK_FLAG_ALLOW_MAYBE flags"
  let ?element = "check_type_string (?flags1 - {CHECK_FLAG_CONSUME_ARGS}) (advance 1 st)"
  let ?expected = "if CHECK_FLAG_DIRECTION_OUT \<in> flags
                   then find_pointer_type_by_name ''GVariantIter''
                   else find_pointer_type_by_name ''GVariantBuilder''"
  obtain ok2 st2 where element: "?element = (ok2, st2)"
    by fastforce
  have cursor: "args_begin st2 = args_begin st"
    using parser_invariant(2)[of "?flags1 - {CHECK_FLAG_CONSUME_ARGS}" "advance 1 st"] element
    by (simp add: parser_inv_def)
  have whole: "check_type_string flags st =
      (if \<not> ok2 then (False, st2) else consume_variadic_argument ?expected ?flags1 st2)"
    unfolding check_type_string_array[OF assms] element by simp
  have cons: "CHECK_FLAG_CONSUME_ARGS \<in> ?flags1 \<longleftrightarrow> CHECK_FLAG_CONSUME_ARGS \<in> flags"
    by simp
  note moved = consume_cursor[of ?expected ?flags1 st2, unfolded cons cursor]
  note nonempty = consume_cursor_nonempty[of ?expected ?flags1 st2, unfolded cons cursor]
  note effective = expected_type_for_array[of flags]
  show ?thesis
  proof (cases ok2)
    case False
    with whole cursor element effective show ?thesis by (simp add: Let_def)
  next
    case True
    with whole have w: "check_type_string flags st =
        consume_variadic_argument ?expected ?flags1 st2" by simp
    show ?thesis
      unfolding Let_def element w using True cursor moved nonempty effective by simp
  qed
qed


theorem array_production_witness:
  "fst (check_type_string {CHECK_FLAG_CONSUME_ARGS}
     (start ''ai'' [variable_of (find_pointer_type_by_name ''GVariantBuilder''),
        variable_of IntTy])) \<and>
   args_begin (snd (check_type_string {CHECK_FLAG_CONSUME_ARGS}
     (start ''ai'' [variable_of (find_pointer_type_by_name ''GVariantBuilder''),
        variable_of IntTy]))) = [variable_of IntTy] \<and>
   fst (check_type_string {CHECK_FLAG_CONSUME_ARGS, CHECK_FLAG_DIRECTION_OUT}
     (start ''ai'' [variable_of (getPointerType (find_pointer_type_by_name ''GVariantIter''))])) \<and>
   args_begin (snd (check_type_string {CHECK_FLAG_CONSUME_ARGS, CHECK_FLAG_DIRECTION_OUT}
     (start ''ai'' [variable_of (getPointerType (find_pointer_type_by_name ''GVariantIter''))]))) =
     [] \<and>
   expected_type_for {CHECK_FLAG_ALLOW_MAYBE, CHECK_FLAG_CONSUME_ARGS, CHECK_FLAG_DIRECTION_OUT}
       (find_pointer_type_by_name ''GVariantIter'') =
     getPointerType (find_pointer_type_by_name ''GVariantIter'')"
proof -
  let ?inbound = "start ''ai'' [variable_of (find_pointer_type_by_name ''GVariantBuilder''),
        variable_of IntTy]"
  let ?outbound =
    "start ''ai'' [variable_of (getPointerType (find_pointer_type_by_name ''GVariantIter''))]"
  let ?out = "{CHECK_FLAG_CONSUME_ARGS, CHECK_FLAG_DIRECTION_OUT}"
  have h: "peek (format_str ?inbound) = CHR ''a''" "peek (format_str ?outbound) = CHR ''a''"
    by simp_all
  have r: "fst (check_type_string {CHECK_FLAG_CONSUME_ARGS} ?inbound)"
    "fst (check_type_string ?out ?outbound)"
    by code_simp+
  have c: "CHECK_FLAG_CONSUME_ARGS \<in> {CHECK_FLAG_CONSUME_ARGS}" "CHECK_FLAG_CONSUME_ARGS \<in> ?out"
    "CHECK_FLAG_REQUIRE_CONST \<notin> ?out \<and> CHECK_FLAG_FORCE_VALIST \<notin> ?out"
    "CHECK_FLAG_FORCE_GVARIANT \<notin> ?out" "CHECK_FLAG_DIRECTION_OUT \<in> ?out"
    by simp_all
  have "args_begin (snd (check_type_string {CHECK_FLAG_CONSUME_ARGS} ?inbound)) =
      tl (args_begin ?inbound)"
    using array_production[OF h(1), of "{CHECK_FLAG_CONSUME_ARGS}", unfolded Let_def] r(1) c(1)
    by blast
  moreover have "args_begin (snd (check_type_string ?out ?outbound)) = tl (args_begin ?outbound)"
    using array_production[OF h(2), of ?out, unfolded Let_def] r(2) c(2)
    by blast
  moreover have "expected_type_for (insert CHECK_FLAG_ALLOW_MAYBE ?out)
       (find_pointer_type_by_name ''GVariantIter'') =
     getPointerType (find_pointer_type_by_name ''GVariantIter'')"
    using array_production[OF h(2), of ?out, unfolded Let_def] c(3,4,5)
    by (simp only: if_True if_False) blast
  moreover have "insert CHECK_FLAG_ALLOW_MAYBE ?out =
      {CHECK_FLAG_ALLOW_MAYBE, CHECK_FLAG_CONSUME_ARGS, CHECK_FLAG_DIRECTION_OUT}"
    by simp
  ultimately show ?thesis using r by simp
qed

subsection \<open>Dictionary entries\<close>

lemma check_type_string_dict_empty:
  assumes "peek (format_str st) = CHR ''{''" and "peek (format_str (advance 1 st)) = CHR ''}''"
  shows "check_type_string flags st =
           (False, emit_error TypeDictNotTwoElements FormatArgLoc (advance 1 st))"
  using assms(2) unfolding check_type_string_dict[OF assms(1)] by simp

lemma check_format_string_dict_empty:
  assumes "peek (format_str st) = CHR ''{''" and "peek (format_str (advance 1 st)) = CHR ''}''"
  shows "check_format_string flags st =
           (False, emit_error FormatDictNotTwoElements FormatArgLoc (advance 1 st))"
  using assms(2) unfolding check_format_string_dict[OF assms(1)] by simp

lemma check_type_string_dict_members:
  assumes "peek (format_str st) = CHR ''{''" and "peek (format_str (advance 1 st)) \<noteq> CHR ''}''"
  shows "check_basic_type_string flags (advance 1 st) = (False, st2) \<Longrightarrow>
           check_type_string flags st = (False, st2)"
    and "check_basic_type_string flags (advance 1 st) = (True, st2) \<Longrightarrow>
         peek (format_str st2) = CHR ''}'' \<Longrightarrow>
           check_type_string flags st =
             (False, emit_error TypeDictNotTwoElements FormatArgLoc st2)"
    and "check_basic_type_string flags (advance 1 st) = (True, st2) \<Longrightarrow>
         peek (format_str st2) \<noteq> CHR ''}'' \<Longrightarrow>
         check_type_string flags st2 = (False, st3) \<Longrightarrow>
           check_type_string flags st = (False, st3)"
    and "check_basic_type_string flags (advance 1 st) = (True, st2) \<Longrightarrow>
         peek (format_str st2) \<noteq> CHR ''}'' \<Longrightarrow>
         check_type_string flags st2 = (True, st3) \<Longrightarrow>
         peek (format_str st3) \<noteq> CHR 0x00 \<Longrightarrow> peek (format_str st3) \<noteq> CHR ''}'' \<Longrightarrow>
           check_type_string flags st =
             (False, emit_error TypeDictMoreThanTwoElements FormatArgLoc st3)"
  using assms(2) unfolding check_type_string_dict[OF assms(1)] by simp_all

lemma check_format_string_dict_members:
  assumes "peek (format_str st) = CHR ''{''" and "peek (format_str (advance 1 st)) \<noteq> CHR ''}''"
  shows "check_basic_format_string flags (advance 1 st) = (False, st2) \<Longrightarrow>
           check_format_string flags st = (False, st2)"
    and "check_basic_format_string flags (advance 1 st) = (True, st2) \<Longrightarrow>
         peek (format_str st2) = CHR ''}'' \<Longrightarrow>
           check_format_string flags st =
             (False, emit_error FormatDictNotTwoElements FormatArgLoc st2)"
    and "check_basic_format_string flags (advance 1 st) = (True, st2) \<Longrightarrow>
         peek (format_str st2) \<noteq> CHR ''}'' \<Longrightarrow>
         check_format_string flags st2 = (False, st3) \<Longrightarrow>
           check_format_string flags st = (False, st3)"
    and "check_basic_format_string flags (advance 1 st) = (True, st2) \<Longrightarrow>
         peek (format_str st2) \<noteq> CHR ''}'' \<Longrightarrow>
         check_format_string flags st2 = (True, st3) \<Longrightarrow>
         peek (format_str st3) \<noteq> CHR 0x00 \<Longrightarrow> peek (format_str st3) \<noteq> CHR ''}'' \<Longrightarrow>
           check_format_string flags st =
             (False, emit_error FormatDictMoreThanTwoElements FormatArgLoc st3)"
  using assms(2) unfolding check_format_string_dict[OF assms(1)] by simp_all

text \<open>A dictionary entry is accepted only with exactly two members: a key and a value
  that are both accepted, the closing brace right after the value.\<close>

lemma check_format_string_dict_success:
  assumes "peek (format_str st) = CHR ''{''" and "check_format_string flags st = (True, st')"
  shows "\<exists>st2 st3. peek (format_str (advance 1 st)) \<noteq> CHR ''}'' \<and>
           check_basic_format_string flags (advance 1 st) = (True, st2) \<and>
           peek (format_str st2) \<noteq> CHR ''}'' \<and>
           check_format_string flags st2 = (True, st3) \<and>
           peek (format_str st3) = CHR ''}'' \<and> st' = advance 1 st3"
  using assms(2) unfolding check_format_string_dict[OF assms(1)]
  by (auto split: if_splits prod.splits)

lemma check_type_string_dict_success:
  assumes "peek (format_str st) = CHR ''{''" and "check_type_string flags st = (True, st')"
  shows "\<exists>st2 st3. peek (format_str (advance 1 st)) \<noteq> CHR ''}'' \<and>
           check_basic_type_string flags (advance 1 st) = (True, st2) \<and>
           peek (format_str st2) \<noteq> CHR ''}'' \<and>
           check_type_string flags st2 = (True, st3) \<and>
           peek (format_str st3) = CHR ''}'' \<and> st' = advance 1 st3"
  using assms(2) unfolding check_type_string_dict[OF assms(1)]
  by (auto split: if_splits prod.splits)

text \<open>
  C5, as the spec has it: a dictionary entry with one member fails with the
  \<^verbatim>\<open>MalformedDictEntry\<close> diagnostic for any argument list. With no argument for the
  key the parse of \<^verbatim>\<open>{s}\<close> stops at the key, and the diagnostic is the missing
  argument.
\<close>

theorem dict_entry_counterexample:
  "check_format_string {CHECK_FLAG_CONSUME_ARGS} (start ''{s}'' []) =
     (False, \<lparr>format_str = ''}'', args_begin = [],
        diagnostics = [Error (NoArgument char_ptr) FormatArgLoc]\<rparr>) \<and>
   check_type_string {CHECK_FLAG_CONSUME_ARGS} (start ''{s}'' []) =
     (False, \<lparr>format_str = ''}'', args_begin = [],
        diagnostics = [Error (NoArgument char_ptr) FormatArgLoc]\<rparr>) \<and>
   diagnostic_class (Error (NoArgument char_ptr) FormatArgLoc) = MissingArgument"
  by code_simp

text \<open>
  C5, amended: in both grammars a dictionary entry with no member fails with the
  \<^verbatim>\<open>MalformedDictEntry\<close> diagnostic, whatever the flags, the arguments and the
  diagnostics emitted before. An entry with one member fails with it when the key is
  accepted, and an entry with three or more members when the key and the value are
  accepted. When a member is rejected first (no argument, a type mismatch, a character
  that is no type), the parse fails there and the member's diagnostic is the only one.
\<close>

theorem dict_entry_member_count:
  assumes "peek (format_str st) = CHR ''{''"
  shows
    "(peek (format_str (advance 1 st)) = CHR ''}'' \<longrightarrow>
        check_format_string flags st =
          (False, emit_error FormatDictNotTwoElements FormatArgLoc (advance 1 st)) \<and>
        check_type_string flags st =
          (False, emit_error TypeDictNotTwoElements FormatArgLoc (advance 1 st))) \<and>
     (peek (format_str (advance 1 st)) \<noteq> CHR ''}'' \<longrightarrow>
        (check_basic_format_string flags (advance 1 st) = (False, st2) \<longrightarrow>
           check_format_string flags st = (False, st2)) \<and>
        (check_basic_format_string flags (advance 1 st) = (True, st2) \<and>
         peek (format_str st2) = CHR ''}'' \<longrightarrow>
           check_format_string flags st =
             (False, emit_error FormatDictNotTwoElements FormatArgLoc st2)) \<and>
        (check_basic_format_string flags (advance 1 st) = (True, st2) \<and>
         peek (format_str st2) \<noteq> CHR ''}'' \<and>
         check_format_string flags st2 = (False, st3) \<longrightarrow>
           check_format_string flags st = (False, st3)) \<and>
        (check_basic_format_string flags (advance 1 st) = (True, st2) \<and>
         peek (format_str st2) \<noteq> CHR ''}'' \<and>
         check_format_string flags st2 = (True, st3) \<and>
         peek (format_str st3) \<noteq> CHR 0x00 \<and> peek (format_str st3) \<noteq> CHR ''}'' \<longrightarrow>
           check_format_string flags st =
             (False, emit_error FormatDictMoreThanTwoElements FormatArgLoc st3)) \<and>
        (check_basic_type_string flags (advance 1 st) = (False, st2) \<longrightarrow>
           check_type_string flags st = (False, st2)) \<and>
        (check_basic_type_string flags (advance 1 st) = (True, st2) \<and>
         peek (format_str st2) = CHR ''}'' \<longrightarrow>
           check_type_string flags st =
             (False, emit_error TypeDictNotTwoElements FormatArgLoc st2)) \<and>
        (check_basic_type_string flags (advance 1 st) = (True, st2) \<and>
         peek (format_str st2) \<noteq> CHR ''}'' \<and>
         check_type_string flags st2 = (False, st3) \<longrightarrow>
           check_type_string flags st = (False, st3)) \<and>
        (check_basic_type_string flags (advance 1 st) = (True, st2) \<and>
         peek (format_str st2) \<noteq> CHR ''}'' \<and>
         check_type_string flags st2 = (True, st3) \<and>
         peek (format_str st3) \<noteq> CHR 0x00 \<and> peek (format_str st3) \<noteq> CHR ''}'' \<longrightarrow>
           check_type_string flags st =
             (False, emit_error TypeDictMoreThanTwoElements FormatArgLoc st3))) \<and>
     message_class FormatDictNotTwoElements = MalformedDictEntry \<and>
     message_class FormatDictMoreThanTwoElements = MalformedDictEntry \<and>
     message_class TypeDictNotTwoElements = MalformedDictEntry \<and>
     message_class TypeDictMoreThanTwoElements = MalformedDictEntry"
proof -
  note empty = check_format_string_dict_empty[OF assms, where flags = flags]
    check_type_string_dict_empty[OF assms, where flags = flags]
  note members =
    check_format_string_dict_members(1,2)[OF assms, where flags = flags and ?st2.0 = st2]
    check_format_string_dict_members(3,4)[OF assms, where flags = flags and ?st2.0 = st2
      and ?st3.0 = st3]
    check_type_string_dict_members(1,2)[OF assms, where flags = flags and ?st2.0 = st2]
    check_type_string_dict_members(3,4)[OF assms, where flags = flags and ?st2.0 = st2
      and ?st3.0 = st3]
  have classes:
    "message_class FormatDictNotTwoElements = MalformedDictEntry"
    "message_class FormatDictMoreThanTwoElements = MalformedDictEntry"
    "message_class TypeDictNotTwoElements = MalformedDictEntry"
    "message_class TypeDictMoreThanTwoElements = MalformedDictEntry"
    by simp_all
  show ?thesis
    using empty members classes by blast
qed

text \<open>The three entries the spec names, in both grammars, without arguments to consume
  (zero and three members) and with the key's argument present (one member).\<close>

theorem dict_entry_member_count_witness:
  "check_format_string {} (start ''{}'' []) =
     (False, emit_error FormatDictNotTwoElements FormatArgLoc (start ''}'' [])) \<and>
   check_type_string {} (start ''{}'' []) =
     (False, emit_error TypeDictNotTwoElements FormatArgLoc (start ''}'' [])) \<and>
   check_format_string {CHECK_FLAG_CONSUME_ARGS} (start ''{s}'' [variable_of char_ptr]) =
     (False, emit_error FormatDictNotTwoElements FormatArgLoc (start ''}'' [])) \<and>
   check_type_string {CHECK_FLAG_CONSUME_ARGS} (start ''{s}'' [variable_of char_ptr]) =
     (False, emit_error TypeDictNotTwoElements FormatArgLoc (start ''}'' [])) \<and>
   check_format_string {} (start ''{svs}'' []) =
     (False, emit_error FormatDictMoreThanTwoElements FormatArgLoc (start ''s}'' [])) \<and>
   check_type_string {} (start ''{svs}'' []) =
     (False, emit_error TypeDictMoreThanTwoElements FormatArgLoc (start ''s}'' []))"
proof -
  have adv: "advance (Suc 0) (start (c # s) a) = start s a" for c s a
    by (simp add: advance_def start_def)
  have k1: "check_basic_format_string {CHECK_FLAG_CONSUME_ARGS} (start ''s}'' [variable_of char_ptr])
      = (True, start ''}'' [])"
    "check_basic_type_string {CHECK_FLAG_CONSUME_ARGS} (start ''s}'' [variable_of char_ptr])
      = (True, start ''}'' [])"
    by code_simp+
  have k3: "check_basic_format_string {} (start ''svs}'' []) = (True, start ''vs}'' [])"
    "check_basic_type_string {} (start ''svs}'' []) = (True, start ''vs}'' [])"
    "check_format_string {} (start ''vs}'' []) = (True, start ''s}'' [])"
    "check_type_string {} (start ''vs}'' []) = (True, start ''s}'' [])"
    by code_simp+
  show ?thesis
    using dict_entry_member_count[of "start ''{}'' []" "{}"]
      dict_entry_member_count[of "start ''{s}'' [variable_of char_ptr]"
        "{CHECK_FLAG_CONSUME_ARGS}" "start ''}'' []"]
      dict_entry_member_count[of "start ''{svs}'' []" "{}" "start ''vs}'' []" "start ''s}'' []"]
    by (simp add: adv k1 k3)
qed

section \<open>The round trip through the suggestion\<close>









lemma suggestion_values:
  "gvariant_format_string_for_type IntTy = Some ''i''"
  "gvariant_format_string_for_type (find_type_by_name ''gint32'') = Some ''i''"
  "gvariant_format_string_for_type (find_type_by_name ''guint32'') = Some ''u''"
  "gvariant_format_string_for_type (find_type_by_name ''gint64'') = Some ''x''"
  "gvariant_format_string_for_type (find_type_by_name ''guint64'') = Some ''t''"
  "gvariant_format_string_for_type char_ptr = Some ''s''"
  "gvariant_format_string_for_type DoubleTy = None"
  "gvariant_format_string_for_type (find_pointer_type_by_name ''GVariant'') = None"
  by code_simp+







section \<open>Arguments left over\<close>

lemma unconsumed_arguments_all:
  "unconsumed_arguments False args (retval, ds) =
     (retval \<and> args = [], ds @ map unexpected_argument args)"
  by (induction args arbitrary: retval ds) simp_all

lemma unexpected_argument_class [simp]:
  "diagnostic_class (unexpected_argument arg) = UnconsumedArguments"
  by (simp add: unexpected_argument_def split: option.splits)

lemma check_format_string_success_silent:
  "check_format_string flags st = (True, st1) \<Longrightarrow> diagnostics st1 = diagnostics st"
  using parser_invariant(5)[of flags st] by (simp add: parser_inv_def)

text \<open>
  C8: when the format string is a literal, the grammar parse succeeds, the format string
  is consumed to its end and the function takes no \<^verbatim>\<open>va_list\<close>, the check emits
  exactly one diagnostic for each argument left over, in their order, and nothing else;
  each is of the class \<^verbatim>\<open>UnconsumedArguments\<close> and carries the suggested format
  string when there is one; and the check returns true if and only if no argument is
  left over.
\<close>

theorem unconsumed_arguments_reported:
  assumes "format_param_index func_info < length call_args"
      and "first_vararg_param_index func_info \<le> length call_args"
      and "asStringLiteral (call_args ! format_param_index func_info) = Some literal"
      and "\<not> uses_va_list func_info"
      and "check_format_string (initial_flags func_info)
             \<lparr>format_str = takeWhile (\<lambda>c. c \<noteq> CHR 0x00) literal,
              args_begin = drop (first_vararg_param_index func_info) call_args,
              diagnostics = []\<rparr> = (True, st1)"
      and "peek (format_str st1) = CHR 0x00"
  shows "check_gvariant_format_param call_args callee func_info =
           Some (args_begin st1 = [], map unexpected_argument (args_begin st1)) \<and>
         (\<forall>arg \<in> set (args_begin st1).
            diagnostic_class (unexpected_argument arg) = UnconsumedArguments \<and>
            (\<forall>f. gvariant_format_string_for_type (getType arg) = Some f \<longrightarrow>
               unexpected_argument arg = Error (UnexpectedArgument (getType arg) f) (ArgLoc arg)))"
proof -
  have silent: "diagnostics st1 = []"
    using check_format_string_success_silent[OF assms(5)] by simp
  have "check_gvariant_format_param call_args callee func_info =
      Some (unconsumed_arguments False (args_begin st1) (True, []))"
    using assms silent by (simp add: check_gvariant_format_param_def Let_def)
  moreover have "unexpected_argument arg =
      Error (UnexpectedArgument (getType arg) f) (ArgLoc arg)"
    if "gvariant_format_string_for_type (getType arg) = Some f" for arg f
    using that by (simp add: unexpected_argument_def)
  ultimately show ?thesis
    by (simp add: unconsumed_arguments_all)
qed

theorem unconsumed_arguments_reported_witness:
  "check_gvariant_format_param
     [string_literal ''s'', variable_of char_ptr, variable_of IntTy, variable_of DoubleTy]
     ''g_variant_new'' g_variant_new =
   Some (False,
     [Error (UnexpectedArgument IntTy ''i'') (ArgLoc (variable_of IntTy)),
      Error (UnexpectedArgumentNoRepresentation DoubleTy) (ArgLoc (variable_of DoubleTy))])"
proof -
  let ?args = "[string_literal ''s'', variable_of char_ptr, variable_of IntTy,
    variable_of DoubleTy]"
  have parse: "check_format_string (initial_flags g_variant_new)
      \<lparr>format_str = takeWhile (\<lambda>c. c \<noteq> CHR 0x00) ''s'',
       args_begin = drop (first_vararg_param_index g_variant_new) ?args,
       diagnostics = []\<rparr> = (True, start [] [variable_of IntTy, variable_of DoubleTy])"
    by code_simp
  have lit: "asStringLiteral (?args ! format_param_index g_variant_new) = Some ''s''"
    by (simp add: g_variant_new_def string_literal_def)
  have u: "unexpected_argument (variable_of IntTy) =
      Error (UnexpectedArgument IntTy ''i'') (ArgLoc (variable_of IntTy))"
    "unexpected_argument (variable_of DoubleTy) =
      Error (UnexpectedArgumentNoRepresentation DoubleTy) (ArgLoc (variable_of DoubleTy))"
    by (simp_all add: unexpected_argument_def variable_of_def suggestion_values)
  show ?thesis
    using unconsumed_arguments_reported[OF _ _ lit _ parse, of "''g_variant_new''"]
    by (simp add: g_variant_new_def u)
qed

section \<open>The flags along the calls\<close>

text \<open>The recursion relation of the parsers relates the arguments of a call to the
  arguments of the parser that makes it; the flags are the first component of either.\<close>

abbreviation "parser_call \<equiv> check_basic_type_string_check_type_string_check_type_tuple_check_basic_format_string_check_format_string_check_format_tuple_rel"

definition flags_of ::
    "((flags \<times> check_state) + (flags \<times> check_state) + (flags \<times> check_state)) +
     ((flags \<times> check_state) + (flags \<times> check_state) + (flags \<times> check_state)) \<Rightarrow> flags" where
  "flags_of x =
     (case x of
        Inl (Inl (flags, st)) \<Rightarrow> flags
      | Inl (Inr (Inl (flags, st))) \<Rightarrow> flags
      | Inl (Inr (Inr (flags, st))) \<Rightarrow> flags
      | Inr (Inl (flags, st)) \<Rightarrow> flags
      | Inr (Inr (Inl (flags, st))) \<Rightarrow> flags
      | Inr (Inr (Inr (flags, st))) \<Rightarrow> flags)"

text \<open>
  C9: for every call one of the parsers makes to a parser, the flags of the callee hold
  every flag of the caller, \<^verbatim>\<open>consumeArguments\<close> excepted. The flags are an argument
  of each parser and no part of what it returns, so a callee's flags never reach its
  caller.
\<close>

theorem flags_monotone:
  assumes "parser_call callee caller"
  shows "flags_of caller - {CHECK_FLAG_CONSUME_ARGS} \<subseteq> flags_of callee"
  using assms
  by (cases rule: check_basic_type_string_check_type_string_check_type_tuple_check_basic_format_string_check_format_string_check_format_tuple_rel.cases)
     (auto simp: flags_of_def)


text \<open>The call for the element type of an array: \<^verbatim>\<open>allowMaybeNull\<close> is added and
  \<^verbatim>\<open>consumeArguments\<close> is cleared.\<close>

theorem flags_monotone_witness:
  "parser_call
     (Inl (Inr (Inl (insert CHECK_FLAG_ALLOW_MAYBE
          {CHECK_FLAG_CONSUME_ARGS, CHECK_FLAG_DIRECTION_OUT} - {CHECK_FLAG_CONSUME_ARGS},
        advance 1 (start ''ai'' [])))))
     (Inl (Inr (Inl ({CHECK_FLAG_CONSUME_ARGS, CHECK_FLAG_DIRECTION_OUT}, start ''ai'' [])))) \<and>
   {CHECK_FLAG_CONSUME_ARGS, CHECK_FLAG_DIRECTION_OUT} - {CHECK_FLAG_CONSUME_ARGS} \<subseteq>
     insert CHECK_FLAG_ALLOW_MAYBE {CHECK_FLAG_CONSUME_ARGS, CHECK_FLAG_DIRECTION_OUT} -
       {CHECK_FLAG_CONSUME_ARGS}"
proof -
  have call: "parser_call
     (Inl (Inr (Inl (insert CHECK_FLAG_ALLOW_MAYBE
          {CHECK_FLAG_CONSUME_ARGS, CHECK_FLAG_DIRECTION_OUT} - {CHECK_FLAG_CONSUME_ARGS},
        advance 1 (start ''ai'' [])))))
     (Inl (Inr (Inl ({CHECK_FLAG_CONSUME_ARGS, CHECK_FLAG_DIRECTION_OUT}, start ''ai'' []))))"
    by (rule check_basic_type_string_check_type_string_check_type_tuple_check_basic_format_string_check_format_string_check_format_tuple_rel.intros(1)[OF refl _ _ refl refl refl])
       simp_all
  show ?thesis
    using flags_monotone[OF call] call by (simp add: flags_of_def)
qed

section \<open>The repository's test of dictionary iteration\<close>

text \<open>\<^verbatim>\<open>tests/gvariant-iter.c\<close>: \<^verbatim>\<open>g_variant_iter_loop (&iter, "{sv}", &key, &value)\<close>
  passes with a \<^verbatim>\<open>GVariant *value\<close>, and with a \<^verbatim>\<open>gchar *not_a_value\<close> the error
  names \<^verbatim>\<open>GVariant **\<close> as expected and \<^verbatim>\<open>gchar **\<close> as seen.\<close>

definition gchar_ptr_ptr :: QualType where
  "gchar_ptr_ptr = getPointerType (getPointerType (find_type_by_name ''gchar''))"

definition GVariant_ptr_ptr :: QualType where
  "GVariant_ptr_ptr = getPointerType (find_pointer_type_by_name ''GVariant'')"

lemma test_gvariant_iter:
  "check_gvariant_format_param
     [variable_of (find_pointer_type_by_name ''GVariantIter''), string_literal ''{sv}'',
      variable_of gchar_ptr_ptr, variable_of GVariant_ptr_ptr]
     ''g_variant_iter_loop'' g_variant_iter_loop = Some (True, [])"
  "check_gvariant_format_param
     [variable_of (find_pointer_type_by_name ''GVariantIter''), string_literal ''{sv}'',
      variable_of gchar_ptr_ptr, variable_of gchar_ptr_ptr]
     ''g_variant_iter_loop'' g_variant_iter_loop =
     Some (False, [Error (TypeMismatch GVariant_ptr_ptr gchar_ptr_ptr)
                     (ArgLoc (variable_of gchar_ptr_ptr))])"
  by code_simp+

end
